theory Spec2Isabelle
  imports Main "HOL-Library.AList"
begin

section \<open>JavaScript values\<close>

text \<open>
  The agent of \<^verbatim>\<open>lib/agent.js\<close> handles untyped wire messages, so the model
  starts with the values of JavaScript that JSON can carry, and \<open>undefined\<close> (what
  reading an absent property gives). An object is the list of its own properties in the
  order they were created. Numbers are integers: versions, sequence numbers, query ids and
  error codes are, and the agent compares numbers but never computes with them.
\<close>

datatype jsval =
    JUndefined
  | JNull
  | JBool bool
  | JNum int
  | JStr string
  | JArr "jsval list"
  | JObj "(string \<times> jsval) list"

text \<open>\<^verbatim>\<open>if (x)\<close>, \<^verbatim>\<open>!x\<close>, \<^verbatim>\<open>x || y\<close>: the truthiness of a value.\<close>

fun truthy :: "jsval \<Rightarrow> bool" where
  "truthy JUndefined = False"
| "truthy JNull = False"
| "truthy (JBool b) = b"
| "truthy (JNum n) = (n \<noteq> 0)"
| "truthy (JStr s) = (s \<noteq> [])"
| "truthy (JArr xs) = True"
| "truthy (JObj kvs) = True"

text \<open>\<^verbatim>\<open>typeof x\<close>; \<^verbatim>\<open>typeof null\<close> is \<^verbatim>\<open>'object'\<close>, as for arrays.\<close>

fun typeof :: "jsval \<Rightarrow> string" where
  "typeof JUndefined = ''undefined''"
| "typeof JNull = ''object''"
| "typeof (JBool b) = ''boolean''"
| "typeof (JNum n) = ''number''"
| "typeof (JStr s) = ''string''"
| "typeof (JArr xs) = ''object''"
| "typeof (JObj kvs) = ''object''"

text \<open>\<^verbatim>\<open>x == null\<close> holds of \<open>null\<close> and \<open>undefined\<close> only.\<close>

fun nullish :: "jsval \<Rightarrow> bool" where
  "nullish JUndefined = True"
| "nullish JNull = True"
| "nullish v = False"

text \<open>
  A property name is an array index when it is the decimal numeral, without a leading
  zero, of a number below \<open>2^32 - 1\<close>. \<^verbatim>\<open>for (k in x)\<close> and \<^verbatim>\<open>Object.keys(x)\<close>
  visit the own properties of an object with the array indices first, in ascending order,
  and then the other names in the order they were created.
\<close>

definition digit_value :: "char \<Rightarrow> nat" where
  "digit_value c = of_char c - 48"

definition index_value :: "string \<Rightarrow> nat" where
  "index_value s = foldl (\<lambda>n c. 10 * n + digit_value c) 0 s"

definition is_index :: "string \<Rightarrow> bool" where
  "is_index s =
     (case s of
        [] \<Rightarrow> False
      | c # cs \<Rightarrow>
          list_all (\<lambda>x. x \<in> set ''0123456789'') s \<and>
          (c \<in> set ''123456789'' \<or> s = ''0'') \<and>
          index_value s < 4294967295)"

definition for_in :: "(string \<times> 'a) list \<Rightarrow> (string \<times> 'a) list" where
  "for_in kvs =
     sort_key (\<lambda>p. index_value (fst p)) (filter (\<lambda>p. is_index (fst p)) kvs) @
     filter (\<lambda>p. \<not> is_index (fst p)) kvs"

text \<open>
  \<^verbatim>\<open>x.k\<close> and \<^verbatim>\<open>x[k]\<close> for the names the agent reads from a message, from an
  error and from the values inside them: the fixed names of the protocol (\<open>a\<close>, \<open>c\<close>,
  \<open>d\<close>, \<open>id\<close>, \<open>v\<close>, \<open>s\<close>, \<open>code\<close>, ...) and the names that
  \<^verbatim>\<open>for (k in x)\<close> has given for \<open>x\<close>. It is the own property \<open>k\<close> of an object,
  the element of an array or the character of a string at an index, their \<open>length\<close>,
  and \<open>undefined\<close> otherwise. On \<open>null\<close> and \<open>undefined\<close> the read throws; the
  callers below test for that before they read.
\<close>

fun js_get :: "jsval \<Rightarrow> string \<Rightarrow> jsval" where
  "js_get (JObj kvs) k = (case map_of kvs k of None \<Rightarrow> JUndefined | Some v \<Rightarrow> v)"
| "js_get (JArr xs) k =
     (if is_index k \<and> index_value k < length xs then xs ! index_value k
      else if k = ''length'' then JNum (int (length xs))
      else JUndefined)"
| "js_get (JStr s) k =
     (if is_index k \<and> index_value k < length s then JStr [s ! index_value k]
      else if k = ''length'' then JNum (int (length s))
      else JUndefined)"
| "js_get v k = JUndefined"

text \<open>\<^verbatim>\<open>x || y\<close> on values.\<close>

definition js_or :: "jsval \<Rightarrow> jsval \<Rightarrow> jsval" where
  "js_or x y = (if truthy x then x else y)"

text \<open>
  \<^verbatim>\<open>x === y\<close>. On undefined, null, booleans, numbers and strings it is equality of
  the values. Objects and arrays are equal when they are the same object; the model has
  no object identities, so an object value stands for one object. The comparisons of the
  agent have a string or a number on one side, or compare the names of collections or of
  types.
\<close>

definition strict_eq :: "jsval \<Rightarrow> jsval \<Rightarrow> bool" where
  "strict_eq x y = (x = y)"

section \<open>Objects used as maps\<close>

text \<open>
  The agent keeps its subscriptions in plain objects, and it reads them, the \<open>versions\<close>
  of a query and the snapshot map of the Backend with names that come from the client:
  \<^verbatim>\<open>obj[k]\<close>. Such a read looks at the own properties of the object first and then at
  \<^verbatim>\<open>Object.prototype\<close>, from which every plain object inherits. These are the property
  names of \<^verbatim>\<open>Object.prototype\<close> in Node. All are functions but \<^verbatim>\<open>__proto__\<close>, which
  reads as \<^verbatim>\<open>Object.prototype\<close> itself. The model takes \<^verbatim>\<open>Object.prototype\<close> as the
  runtime made it, with no other property.
\<close>

definition object_prototype_names :: "string list" where
  "object_prototype_names =
     [''constructor'', ''toString'', ''toLocaleString'', ''valueOf'', ''hasOwnProperty'',
      ''isPrototypeOf'', ''propertyIsEnumerable'', ''__proto__'', ''__defineGetter__'',
      ''__defineSetter__'', ''__lookupGetter__'', ''__lookupSetter__'']"

definition inherited :: "string \<Rightarrow> bool" where
  "inherited k = (k \<in> set object_prototype_names)"

text \<open>
  What \<^verbatim>\<open>obj[k]\<close> finds in a plain object with the own properties \<open>kvs\<close>: the own
  property; or, for a name of \<^verbatim>\<open>Object.prototype\<close> that the object does not have
  itself, the inherited function or object; or nothing, and the read gives
  \<open>undefined\<close>. An inherited value is truthy and is not \<open>null\<close>; it has no
  \<^verbatim>\<open>destroy\<close> method, so calling \<^verbatim>\<open>destroy()\<close> on it throws a TypeError; compared
  with a number by \<^verbatim>\<open><\<close> or \<^verbatim>\<open>>\<close> it gives \<open>false\<close>, for it converts to
  \<open>NaN\<close>.
\<close>

datatype 'a slot = Own 'a | Inherited | Absent

definition slot :: "(string \<times> 'a) list \<Rightarrow> string \<Rightarrow> 'a slot" where
  "slot kvs k =
     (case map_of kvs k of
        Some v \<Rightarrow> Own v
      | None \<Rightarrow> if inherited k then Inherited else Absent)"

text \<open>
  \<^verbatim>\<open>obj[k] = v\<close> on a plain object: it replaces the own property, or creates it after
  the others. The name \<^verbatim>\<open>__proto__\<close> is the exception: when the object has no own
  property of that name the assignment calls the setter inherited from
  \<^verbatim>\<open>Object.prototype\<close>, which creates no property (given an object it replaces the
  prototype of \<open>obj\<close>, given a number or a boolean it does nothing). An object that
  \<^verbatim>\<open>JSON.parse\<close> has made can have \<^verbatim>\<open>__proto__\<close> as an own property.
\<close>

definition put :: "(string \<times> 'a) list \<Rightarrow> string \<Rightarrow> 'a \<Rightarrow> (string \<times> 'a) list" where
  "put kvs k v =
     (if k = ''__proto__'' \<and> map_of kvs k = None then kvs else AList.update k v kvs)"

text \<open>
  How code that uses such maps ends, each time with the state it has reached. It returns.
  Or it throws a TypeError: it has called \<^verbatim>\<open>destroy()\<close> on an inherited function. Or
  it has read, under the name of a collection, an object of the runtime where it expects
  the map of that collection, and goes on to read and write the properties of that object
  (\<^verbatim>\<open>Object.prototype\<close>, or one of its functions); what these are is up to the
  runtime, and the model follows the code no further.
\<close>

datatype 'a outcome = Returns 'a | Throws 'a | RuntimeObject 'a

fun state_of :: "'a outcome \<Rightarrow> 'a" where
  "state_of (Returns x) = x"
| "state_of (Throws x) = x"
| "state_of (RuntimeObject x) = x"

text \<open>The ways \<^verbatim>\<open>_handleMessage\<close> ends without returning, by these two.\<close>

datatype js_error = TypeError | RuntimeObjectUsed

section \<open>The agent and its collaborators\<close>

text \<open>
  A DocStream and a QueryEmitter are objects of the Backend; the agent holds references to
  them and calls \<^verbatim>\<open>destroy()\<close>. A stream is modelled by its identity, an emitter by its
  identity and the two fields \<^verbatim>\<open>_queryResubscribe\<close> reads.
\<close>

type_synonym stream = nat

record emitter =
  e_ref :: nat
  e_index :: jsval
  e_options :: jsval

text \<open>
  An operation record as the Backend delivers it and as \<^verbatim>\<open>_createOp\<close> builds it. A
  field the object does not have is \<open>undefined\<close>.
\<close>

record oprec =
  op_src :: jsval
  op_seq :: jsval
  op_v :: jsval
  op_op :: jsval
  op_create :: jsval
  op_del :: jsval
  op_m :: jsval
  op_i :: jsval
  op_c :: jsval
  op_d :: jsval
  op_error :: jsval

text \<open>The calls the agent makes on the Backend, with their arguments (the agent itself
  and the callback left out).\<close>

datatype backend_call =
    BSubscribe jsval jsval jsval
  | BSubscribeBulk jsval jsval
  | BFetch jsval jsval
  | BGetOps jsval jsval jsval
  | BGetOpsBulk jsval "(string \<times> int) list"
  | BSubmit jsval jsval "oprec option"
  | BQuerySubscribe jsval jsval jsval
  | BQueryResubscribe jsval jsval emitter jsval
  | BQueryFetch jsval jsval jsval

text \<open>
  Everything the agent does to the outside, in the order it does it: messages written to
  the client's stream, \<^verbatim>\<open>stream.emit('error', err)\<close> and \<^verbatim>\<open>stream.end()\<close> of
  \<^verbatim>\<open>close\<close>, \<^verbatim>\<open>destroy()\<close> on streams and emitters, calls on the Backend, and
  \<^verbatim>\<open>process.nextTick(callback)\<close>, which replies to the request later with no error
  and no body.
\<close>

datatype event =
    Write jsval
  | EmitError jsval
  | StreamEnd
  | DestroyStream stream
  | DestroyEmitter nat
  | Backend backend_call
  | NextTickReply jsval

text \<open>
  The agent's fields. \<open>subscribedDocs\<close> maps a collection to a map from document ids to
  streams, \<open>subscribedQueries\<close> maps a query id to its emitter; both are JavaScript
  objects, here the lists of their own properties in the order they were created.
  \<open>trace\<close> records the events so far.
\<close>

record agent =
  clientId :: string
  closed :: bool
  subscribedDocs :: "(string \<times> (string \<times> stream) list) list"
  subscribedQueries :: "(int \<times> emitter) list"
  trace :: "event list"

definition emit :: "agent \<Rightarrow> event \<Rightarrow> agent" where
  "emit ag e = ag\<lparr>trace := trace ag @ [e]\<rparr>"

text \<open>\<^verbatim>\<open>Agent.prototype._send\<close>: quietly drops the message once the agent is closed.\<close>

definition send :: "agent \<Rightarrow> jsval \<Rightarrow> agent" where
  "send ag msg = (if closed ag then ag else emit ag (Write msg))"

text \<open>\<^verbatim>\<open>msg.k = v\<close> on an object, for the fixed names of the protocol: replaces the
  property or appends it.\<close>

definition js_set :: "(string \<times> jsval) list \<Rightarrow> string \<Rightarrow> jsval \<Rightarrow> (string \<times> jsval) list" where
  "js_set kvs k v = AList.update k v kvs"

text \<open>\<^verbatim>\<open>if (x) msg.k = v\<close>.\<close>

definition set_if :: "bool \<Rightarrow> string \<Rightarrow> jsval \<Rightarrow> (string \<times> jsval) list \<Rightarrow> (string \<times> jsval) list" where
  "set_if b k v kvs = (if b then js_set kvs k v else kvs)"

text \<open>
  \<^verbatim>\<open>Agent.prototype._sendOp\<close>: the wire form of an operation of document
  \<open>(collection, docId)\<close>.
\<close>

definition op_message :: "jsval \<Rightarrow> jsval \<Rightarrow> oprec \<Rightarrow> jsval" where
  "op_message collection docId opr =
     JObj (set_if (truthy (op_del opr)) ''del'' (JBool True)
          (set_if (truthy (op_create opr)) ''create'' (op_create opr)
          (set_if (truthy (op_op opr)) ''op'' (op_op opr)
            [(''a'', JStr ''op''), (''c'', collection), (''d'', docId),
             (''v'', op_v opr), (''src'', op_src opr), (''seq'', op_seq opr)])))"

definition sendOp :: "agent \<Rightarrow> jsval \<Rightarrow> jsval \<Rightarrow> oprec \<Rightarrow> agent" where
  "sendOp ag collection docId opr = send ag (op_message collection docId opr)"

text \<open>\<^verbatim>\<open>Agent.prototype._isOwnOp\<close>.\<close>

definition isOwnOp :: "agent \<Rightarrow> jsval \<Rightarrow> oprec \<Rightarrow> bool" where
  "isOwnOp ag collection opr =
     (strict_eq (JStr (clientId ag)) (op_src opr) \<and>
      strict_eq collection (js_or (op_i opr) (op_c opr)))"

text \<open>
  The \<^verbatim>\<open>'data'\<close> listener \<^verbatim>\<open>_subscribeToStream\<close> puts on a stream; \<open>collection\<close>
  and \<open>docId\<close> are the variables its closure holds. The error of a stream is logged to the
  console, which is no event here.
\<close>

definition stream_on_data :: "agent \<Rightarrow> jsval \<Rightarrow> jsval \<Rightarrow> oprec \<Rightarrow> agent" where
  "stream_on_data ag collection docId data =
     (if truthy (op_error data) then ag
      else if isOwnOp ag collection data then ag
      else sendOp ag collection docId data)"

text \<open>The \<^verbatim>\<open>onOp\<close> hook \<^verbatim>\<open>_subscribeToQuery\<close> installs on an emitter.\<close>

definition emitter_onOp :: "agent \<Rightarrow> jsval \<Rightarrow> oprec \<Rightarrow> agent" where
  "emitter_onOp ag collection opr =
     (let docId = op_d opr in
      if isOwnOp ag collection opr then ag
      else sendOp ag collection docId opr)"

text \<open>
  \<^verbatim>\<open>Agent.prototype._reply\<close>. The body \<open>msg\<close> is an object the agent has built, or
  missing. The reply starts from \<^verbatim>\<open>{error: err}\<close> when \<open>err\<close> is truthy, then takes
  \<open>a\<close> from the request, and \<open>c\<close>, \<open>d\<close>, \<open>id\<close> when the request has them truthy.
\<close>

definition reply_message :: "jsval \<Rightarrow> jsval \<Rightarrow> (string \<times> jsval) list option \<Rightarrow> jsval" where
  "reply_message req err msg =
     JObj
       (set_if (truthy (js_get req ''id'')) ''id'' (js_get req ''id'')
       (set_if (truthy (js_get req ''d'')) ''d'' (js_get req ''d'')
       (set_if (truthy (js_get req ''c'')) ''c'' (js_get req ''c'')
       (js_set (if truthy err then [(''error'', err)]
                else (case msg of None \<Rightarrow> [] | Some m \<Rightarrow> m))
          ''a'' (js_get req ''a'')))))"

definition reply :: "agent \<Rightarrow> jsval \<Rightarrow> jsval \<Rightarrow> (string \<times> jsval) list option \<Rightarrow> agent" where
  "reply ag req err msg = send ag (reply_message req err msg)"

section \<open>Close and cleanup\<close>

text \<open>\<^verbatim>\<open>Agent.prototype._cleanup\<close>.\<close>

definition destroy_docs :: "agent \<Rightarrow> (string \<times> stream) list \<Rightarrow> agent" where
  "destroy_docs ag docs = foldl (\<lambda>a (docId, s). emit a (DestroyStream s)) ag (for_in docs)"

text \<open>The order in which \<^verbatim>\<open>for (id in this.subscribedQueries)\<close> visits the queries,
  whose names are the numerals of their ids.\<close>

definition for_in_queries :: "(int \<times> emitter) list \<Rightarrow> (int \<times> emitter) list" where
  "for_in_queries qs =
     sort_key fst (filter (\<lambda>p. 0 \<le> fst p \<and> fst p < 4294967295) qs) @
     filter (\<lambda>p. \<not> (0 \<le> fst p \<and> fst p < 4294967295)) qs"

definition cleanup :: "agent \<Rightarrow> agent" where
  "cleanup ag =
     (if closed ag then ag
      else
        let ag1 = ag\<lparr>closed := True\<rparr>;
            ag2 = foldl (\<lambda>a (collection, docs). destroy_docs a docs) ag1
                    (for_in (subscribedDocs ag1));
            ag3 = ag2\<lparr>subscribedDocs := []\<rparr>;
            ag4 = foldl (\<lambda>a (queryId, em). emit a (DestroyEmitter (e_ref em))) ag3
                    (for_in_queries (subscribedQueries ag3))
        in ag4\<lparr>subscribedQueries := []\<rparr>)"

text \<open>
  \<^verbatim>\<open>Agent.prototype.close\<close>. Whether the client's stream emits \<^verbatim>\<open>'end'\<close> (and so
  runs \<^verbatim>\<open>_cleanup\<close>) while \<^verbatim>\<open>stream.end()\<close> is still running, or later, is up to the
  stream: \<open>sync_end\<close> says which.
\<close>

definition close_agent :: "bool \<Rightarrow> agent \<Rightarrow> jsval \<Rightarrow> agent" where
  "close_agent sync_end ag err =
     (let ag1 = (if truthy err then emit ag (EmitError err) else ag) in
      if closed ag1 then ag1
      else let ag2 = emit ag1 StreamEnd in
           if sync_end then cleanup ag2 else ag2)"

section \<open>Subscriptions\<close>

text \<open>
  The stream the agent has stored for a pair: the own property \<open>docId\<close> of the own
  property \<open>collection\<close> of \<open>subscribedDocs\<close>.
\<close>

definition stored_stream :: "agent \<Rightarrow> string \<Rightarrow> string \<Rightarrow> stream option" where
  "stored_stream ag collection docId =
     (case map_of (subscribedDocs ag) collection of
        None \<Rightarrow> None
      | Some docs \<Rightarrow> map_of docs docId)"

text \<open>
  \<^verbatim>\<open>Agent.prototype._subscribeToStream\<close>, the part before the listeners.
  \<open>collection\<close> and \<open>docId\<close> are the property names the stream is stored under.

  Line 120, \<^verbatim>\<open>streams[id] = stream\<close>, where \<open>streams\<close> is the map that
  \<open>subscribedDocs\<close> has for the collection:
\<close>

definition storeStream ::
  "agent \<Rightarrow> string \<Rightarrow> (string \<times> stream) list \<Rightarrow> string \<Rightarrow> stream \<Rightarrow> agent" where
  "storeStream ag collection streams docId s =
     ag\<lparr>subscribedDocs := put (subscribedDocs ag) collection (put streams docId s)\<rparr>"

text \<open>
  Lines 118 to 120. \<^verbatim>\<open>previous = streams[id]\<close> is the stream stored before, or
  nothing, or a function inherited from \<^verbatim>\<open>Object.prototype\<close> when \<open>id\<close> is one of
  its names: that is truthy, \<^verbatim>\<open>previous.destroy()\<close> throws, and line 120 is not
  reached.
\<close>

definition install ::
  "agent \<Rightarrow> string \<Rightarrow> (string \<times> stream) list \<Rightarrow> string \<Rightarrow> stream \<Rightarrow> agent outcome" where
  "install ag collection streams docId s =
     (case slot streams docId of
        Own previous \<Rightarrow>
          Returns (storeStream (emit ag (DestroyStream previous)) collection streams docId s)
      | Inherited \<Rightarrow> Throws ag
      | Absent \<Rightarrow> Returns (storeStream ag collection streams docId s))"

text \<open>
  Lines 113 to 120. Line 115,
  \<^verbatim>\<open>streams = this.subscribedDocs[collection] || (this.subscribedDocs[collection] = {})\<close>,
  takes the map of the collection, or makes an empty one and stores it. When the
  collection has a name of \<^verbatim>\<open>Object.prototype\<close> and no map of its own, what it takes
  is the inherited function or object.
\<close>

definition subscribeToStream :: "agent \<Rightarrow> string \<Rightarrow> string \<Rightarrow> stream \<Rightarrow> agent outcome" where
  "subscribeToStream ag collection docId s =
     (if closed ag then Returns (emit ag (DestroyStream s))
      else
        (case slot (subscribedDocs ag) collection of
           Own streams \<Rightarrow> install ag collection streams docId s
         | Inherited \<Rightarrow> RuntimeObject ag
         | Absent \<Rightarrow>
             install (ag\<lparr>subscribedDocs := put (subscribedDocs ag) collection []\<rparr>)
               collection [] docId s))"

text \<open>
  A sequence of installations, one after the other. The agent is still there after an
  installation has thrown, and the next one finds the state the throw left.
\<close>

fun install_all :: "agent \<Rightarrow> (string \<times> string \<times> stream) list \<Rightarrow> agent outcome" where
  "install_all ag [] = Returns ag"
| "install_all ag ((collection, docId, s) # rest) =
     (case subscribeToStream ag collection docId s of
        RuntimeObject ag' \<Rightarrow> RuntimeObject ag'
      | r \<Rightarrow> install_all (state_of r) rest)"

text \<open>The streams registered for a pair: the entries of the two-level map under it.\<close>

definition registered :: "agent \<Rightarrow> string \<Rightarrow> string \<Rightarrow> stream list" where
  "registered ag collection docId =
     concat (map (\<lambda>(c, docs). map snd (filter (\<lambda>(d, s). c = collection \<and> d = docId) docs))
               (subscribedDocs ag))"

text \<open>\<^verbatim>\<open>Agent.prototype._subscribeToQuery\<close>, the part before the hooks.\<close>

definition subscribeToQuery :: "agent \<Rightarrow> emitter \<Rightarrow> int \<Rightarrow> agent" where
  "subscribeToQuery ag em queryId =
     (if closed ag then emit ag (DestroyEmitter (e_ref em))
      else
        let ag1 = (case map_of (subscribedQueries ag) queryId of
                     None \<Rightarrow> ag
                   | Some previous \<Rightarrow> emit ag (DestroyEmitter (e_ref previous)))
        in ag1\<lparr>subscribedQueries := AList.update queryId em (subscribedQueries ag1)\<rparr>)"

section \<open>Validation and dispatch\<close>

text \<open>
  \<^verbatim>\<open>Agent.prototype._checkRequest\<close>: the error message, or \<open>undefined\<close> when the
  function falls off its end. \<^verbatim>\<open>req.v < 0\<close> is evaluated only when \<^verbatim>\<open>typeof req.v\<close>
  is \<^verbatim>\<open>'number'\<close>.
\<close>

fun num_lt :: "jsval \<Rightarrow> int \<Rightarrow> bool" where
  "num_lt (JNum n) m = (n < m)"
| "num_lt v m = False"

definition checkRequest :: "jsval \<Rightarrow> jsval" where
  "checkRequest req =
     (let a = js_get req ''a'' in
      if strict_eq a (JStr ''qsub'') \<or> strict_eq a (JStr ''qfetch'') \<or>
         strict_eq a (JStr ''qunsub'') \<or> strict_eq a (JStr ''qresub'') then
        (if typeof (js_get req ''id'') \<noteq> ''number'' then JStr ''Missing query ID''
         else JUndefined)
      else if strict_eq a (JStr ''op'') \<or> strict_eq a (JStr ''sub'') \<or>
              strict_eq a (JStr ''unsub'') \<or> strict_eq a (JStr ''fetch'') then
        (if \<not> nullish (js_get req ''c'') \<and> typeof (js_get req ''c'') \<noteq> ''string''
           then JStr ''Invalid collection''
         else if \<not> nullish (js_get req ''d'') \<and> typeof (js_get req ''d'') \<noteq> ''string''
           then JStr ''Invalid id''
         else if strict_eq a (JStr ''op'') \<and> \<not> nullish (js_get req ''v'') \<and>
                 (typeof (js_get req ''v'') \<noteq> ''number'' \<or> num_lt (js_get req ''v'') 0)
           then JStr ''Invalid version''
         else JUndefined)
      else if strict_eq a (JStr ''bs'') then
        (if typeof (js_get req ''s'') \<noteq> ''object'' then JStr ''Invalid bulk subscribe data''
         else JUndefined)
      else JStr ''Invalid action'')"

text \<open>\<^verbatim>\<open>getQueryOptions\<close>.\<close>

definition getQueryOptions :: "jsval \<Rightarrow> jsval" where
  "getQueryOptions req = JObj [(''versions'', js_get req ''vs''), (''db'', js_get req ''db'')]"

text \<open>
  The query id of a request that has passed \<^verbatim>\<open>_checkRequest\<close> is a number, and the
  keys of \<open>subscribedQueries\<close> are the numbers \<^verbatim>\<open>_subscribeToQuery\<close> stored.
\<close>

definition lookup_query :: "agent \<Rightarrow> jsval \<Rightarrow> emitter option" where
  "lookup_query ag queryId =
     (case queryId of JNum n \<Rightarrow> map_of (subscribedQueries ag) n | _ \<Rightarrow> None)"

definition delete_query :: "agent \<Rightarrow> jsval \<Rightarrow> agent" where
  "delete_query ag queryId =
     (case queryId of
        JNum n \<Rightarrow> ag\<lparr>subscribedQueries := AList.delete n (subscribedQueries ag)\<rparr>
      | _ \<Rightarrow> ag)"

text \<open>\<^verbatim>\<open>Agent.prototype._querySubscribe\<close>, up to the call on the Backend.\<close>

definition querySubscribe :: "agent \<Rightarrow> jsval \<Rightarrow> agent" where
  "querySubscribe ag req =
     emit ag (Backend (BQuerySubscribe (js_get req ''c'') (js_get req ''q'') (getQueryOptions req)))"

text \<open>\<^verbatim>\<open>Agent.prototype._queryResubscribe\<close>, up to the call on the Backend.\<close>

definition queryResubscribe :: "agent \<Rightarrow> jsval \<Rightarrow> agent" where
  "queryResubscribe ag req =
     (case lookup_query ag (js_get req ''id'') of
        None \<Rightarrow> reply ag req (JObj [(''message'', JStr ''Can not find query to resubscribe'')]) None
      | Some em \<Rightarrow>
          emit ag (Backend (BQueryResubscribe (e_index em) (js_get req ''q'') em (e_options em))))"

text \<open>\<^verbatim>\<open>Agent.prototype._queryUnsubscribe\<close>.\<close>

definition queryUnsubscribe :: "agent \<Rightarrow> jsval \<Rightarrow> agent" where
  "queryUnsubscribe ag req =
     (let queryId = js_get req ''id'';
          ag1 = (case lookup_query ag queryId of
                   None \<Rightarrow> ag
                 | Some em \<Rightarrow> delete_query (emit ag (DestroyEmitter (e_ref em))) queryId)
      in emit ag1 (NextTickReply req))"

text \<open>\<^verbatim>\<open>Agent.prototype._queryFetch\<close>, up to the call on the Backend.\<close>

definition queryFetch :: "agent \<Rightarrow> jsval \<Rightarrow> agent" where
  "queryFetch ag req =
     emit ag (Backend (BQueryFetch (js_get req ''c'') (js_get req ''q'') (getQueryOptions req)))"

text \<open>\<^verbatim>\<open>Agent.prototype._subscribe\<close>, up to the call on the Backend.\<close>

definition subscribe :: "agent \<Rightarrow> jsval \<Rightarrow> agent" where
  "subscribe ag req =
     emit ag (Backend (BSubscribe (js_get req ''c'') (js_get req ''d'') (js_get req ''v'')))"

text \<open>
  The property name a collection or a document id is stored under. The \<open>c\<close> and \<open>d\<close> of
  a request that has passed \<^verbatim>\<open>_checkRequest\<close> are a string, \<open>null\<close> or
  \<open>undefined\<close>.
\<close>

definition doc_key :: "jsval \<Rightarrow> string" where
  "doc_key v = (case v of JStr s \<Rightarrow> s | JNull \<Rightarrow> ''null'' | _ \<Rightarrow> ''undefined'')"

text \<open>\<^verbatim>\<open>Agent.prototype._unsubscribe\<close>.\<close>

definition unsubscribe :: "agent \<Rightarrow> jsval \<Rightarrow> agent outcome" where
  "unsubscribe ag req =
     (case slot (subscribedDocs ag) (doc_key (js_get req ''c'')) of
        Absent \<Rightarrow> Returns (emit ag (NextTickReply req))
      | Inherited \<Rightarrow> RuntimeObject ag
      | Own docs \<Rightarrow>
          (case slot docs (doc_key (js_get req ''d'')) of
             Absent \<Rightarrow> Returns (emit ag (NextTickReply req))
           | Inherited \<Rightarrow> Throws ag
           | Own s \<Rightarrow> Returns (emit (emit ag (DestroyStream s)) (NextTickReply req))))"

text \<open>\<^verbatim>\<open>Agent.prototype._fetch\<close>, up to the call on the Backend.\<close>

definition fetch :: "agent \<Rightarrow> jsval \<Rightarrow> agent" where
  "fetch ag req =
     (if nullish (js_get req ''v'')
      then emit ag (Backend (BFetch (js_get req ''c'') (js_get req ''d'')))
      else emit ag (Backend (BGetOps (js_get req ''c'') (js_get req ''d'') (js_get req ''v''))))"

section \<open>Submit\<close>

text \<open>The constructors \<^verbatim>\<open>EditOp\<close>, \<^verbatim>\<open>CreateOp\<close> and \<^verbatim>\<open>DeleteOp\<close>.\<close>

definition no_op :: oprec where
  "no_op = \<lparr>op_src = JUndefined, op_seq = JUndefined, op_v = JUndefined, op_op = JUndefined,
            op_create = JUndefined, op_del = JUndefined, op_m = JUndefined, op_i = JUndefined,
            op_c = JUndefined, op_d = JUndefined, op_error = JUndefined\<rparr>"

definition EditOp :: "jsval \<Rightarrow> jsval \<Rightarrow> jsval \<Rightarrow> jsval \<Rightarrow> oprec" where
  "EditOp src seq v x = no_op\<lparr>op_src := src, op_seq := seq, op_v := v, op_op := x, op_m := JNull\<rparr>"

definition CreateOp :: "jsval \<Rightarrow> jsval \<Rightarrow> jsval \<Rightarrow> jsval \<Rightarrow> oprec" where
  "CreateOp src seq v x =
     no_op\<lparr>op_src := src, op_seq := seq, op_v := v, op_create := x, op_m := JNull\<rparr>"

definition DeleteOp :: "jsval \<Rightarrow> jsval \<Rightarrow> jsval \<Rightarrow> jsval \<Rightarrow> oprec" where
  "DeleteOp src seq v x = no_op\<lparr>op_src := src, op_seq := seq, op_v := v, op_del := x, op_m := JNull\<rparr>"

text \<open>\<^verbatim>\<open>Agent.prototype._createOp\<close>; \<open>None\<close> is the \<open>undefined\<close> it returns when
  none of its three branches is taken.\<close>

definition createOp :: "agent \<Rightarrow> jsval \<Rightarrow> oprec option" where
  "createOp ag req =
     (let src = js_or (js_get req ''src'') (JStr (clientId ag)) in
      if truthy (js_get req ''op'')
        then Some (EditOp src (js_get req ''seq'') (js_get req ''v'') (js_get req ''op''))
      else if truthy (js_get req ''create'')
        then Some (CreateOp src (js_get req ''seq'') (js_get req ''v'') (js_get req ''create''))
      else if truthy (js_get req ''del'')
        then Some (DeleteOp src (js_get req ''seq'') (js_get req ''v'') (js_get req ''del''))
      else None)"

text \<open>\<^verbatim>\<open>Agent.prototype._submit\<close>, up to the call on the Backend.\<close>

definition submit :: "agent \<Rightarrow> jsval \<Rightarrow> agent" where
  "submit ag req =
     emit ag (Backend (BSubmit (js_get req ''c'') (js_get req ''d'') (createOp ag req)))"

text \<open>
  The callback \<^verbatim>\<open>_submit\<close> gives to \<^verbatim>\<open>backend.submit\<close>, called with \<open>(err, ops)\<close>.
  Its variable \<open>op\<close> is the object \<^verbatim>\<open>_createOp\<close> returned, which the Backend has had in
  its hands since: \<open>mutate\<close> is what the Backend did to its fields (the version, for one).
  When \<^verbatim>\<open>_createOp\<close> returned \<open>undefined\<close>, the first statement of the callback reads
  \<^verbatim>\<open>op.src\<close> of \<open>undefined\<close> and throws.
\<close>

definition submit_callback ::
  "agent \<Rightarrow> jsval \<Rightarrow> (oprec \<Rightarrow> oprec) \<Rightarrow> jsval \<Rightarrow> oprec list \<Rightarrow> js_error + agent" where
  "submit_callback ag req mutate err ops =
     (case map_option mutate (createOp ag req) of
        None \<Rightarrow> Inl TypeError
      | Some opr \<Rightarrow>
          (let ack = [(''src'', op_src opr), (''seq'', op_seq opr), (''v'', op_v opr)] in
           if truthy err then
             (if strict_eq (js_get err ''code'') (JNum 4001)
              then Inr (reply ag req JNull (Some ack))
              else Inr (reply ag req err None))
           else
             Inr (reply
                    (foldl (\<lambda>a x. sendOp a (js_get req ''c'') (js_get req ''d'') x) ag ops)
                    req JNull (Some ack))))"

section \<open>Query results\<close>

text \<open>
  A query result \<^verbatim>\<open>{id, v, type, data}\<close> of the Backend, and the \<open>versions\<close> of the
  query options: the own properties of the object, the client's version of each document
  it already has, or \<open>null\<close>.
\<close>

record qresult =
  r_id :: string
  r_v :: int
  r_type :: jsval
  r_data :: jsval

type_synonym versions = "(string \<times> int option) list"

text \<open>
  \<^verbatim>\<open>!versions || versions[result.id] == null\<close>. The read \<^verbatim>\<open>versions[result.id]\<close>
  gives the own property, \<open>undefined\<close> when there is none, and for an id that is a name
  of \<^verbatim>\<open>Object.prototype\<close> the inherited value, which is not \<open>null\<close>.
\<close>

definition no_version :: "versions option \<Rightarrow> string \<Rightarrow> bool" where
  "no_version versions docId =
     (case versions of
        None \<Rightarrow> True
      | Some vs \<Rightarrow>
          (case slot vs docId of
             Own None \<Rightarrow> True
           | Own (Some n) \<Rightarrow> False
           | Inherited \<Rightarrow> False
           | Absent \<Rightarrow> True))"

text \<open>\<^verbatim>\<open>getResultsData\<close>: the loop, with the variable \<open>lastType\<close>, and the function.\<close>

fun results_items :: "qresult list \<Rightarrow> versions option \<Rightarrow> jsval \<Rightarrow> jsval list" where
  "results_items [] versions lastType = []"
| "results_items (r # rs) versions lastType =
     JObj (set_if (no_version versions (r_id r)) ''data'' (r_data r)
          (set_if (\<not> strict_eq lastType (r_type r)) ''type'' (r_type r)
             [(''d'', JStr (r_id r)), (''v'', JNum (r_v r))]))
     # results_items rs versions (if \<not> strict_eq lastType (r_type r) then r_type r else lastType)"

definition getResultsData :: "qresult list \<Rightarrow> versions option \<Rightarrow> jsval list" where
  "getResultsData results versions = results_items results versions JNull"

text \<open>
  \<^verbatim>\<open>getResultsOpsRequest\<close>: the loop, with the variable \<open>request\<close> (\<open>None\<close> while
  it is \<open>undefined\<close>), and the function. \<^verbatim>\<open>from != null && result.v > from\<close> holds
  of a number below the version of the result only: an inherited value is not \<open>null\<close>,
  but no number is above it. Then \<open>request\<close> becomes an object if it was none, and
  \<^verbatim>\<open>request[result.id] = from\<close> is an assignment to a plain object.
\<close>

fun ops_request :: "qresult list \<Rightarrow> versions \<Rightarrow> (string \<times> int) list option \<Rightarrow> (string \<times> int) list option" where
  "ops_request [] vs request = request"
| "ops_request (r # rs) vs request =
     (case slot vs (r_id r) of
        Own (Some from) \<Rightarrow>
          (if r_v r > from
           then ops_request rs vs
                  (Some (put (case request of None \<Rightarrow> [] | Some rq \<Rightarrow> rq) (r_id r) from))
           else ops_request rs vs request)
      | _ \<Rightarrow> ops_request rs vs request)"

definition getResultsOpsRequest :: "qresult list \<Rightarrow> versions option \<Rightarrow> (string \<times> int) list option" where
  "getResultsOpsRequest results versions =
     (case versions of None \<Rightarrow> None | Some vs \<Rightarrow> ops_request results vs None)"

text \<open>
  \<^verbatim>\<open>Agent.prototype._sendQueryResults\<close>, up to the call on the Backend or the reply.
  \<open>req\<close> is the request its \<open>callback\<close> replies to.
\<close>

definition query_reply :: "jsval \<Rightarrow> qresult list \<Rightarrow> versions option \<Rightarrow> jsval \<Rightarrow> (string \<times> jsval) list" where
  "query_reply queryId results versions extra =
     [(''id'', queryId), (''data'', JArr (getResultsData results versions)), (''extra'', extra)]"

definition sendQueryResults ::
  "agent \<Rightarrow> jsval \<Rightarrow> jsval \<Rightarrow> jsval \<Rightarrow> versions option \<Rightarrow> qresult list \<Rightarrow> jsval \<Rightarrow> agent" where
  "sendQueryResults ag req queryId collection versions results extra =
     (case getResultsOpsRequest results versions of
        None \<Rightarrow> reply ag req JNull (Some (query_reply queryId results versions extra))
      | Some opsRequest \<Rightarrow> emit ag (Backend (BGetOpsBulk collection opsRequest)))"

text \<open>
  The callback \<^verbatim>\<open>_sendQueryResults\<close> gives to \<^verbatim>\<open>backend.getOpsBulk\<close>, called with
  \<open>(err, results)\<close>; the results map a document id to the list of its operations.
\<close>

definition send_ops_bulk :: "agent \<Rightarrow> jsval \<Rightarrow> (string \<times> oprec list) list \<Rightarrow> agent" where
  "send_ops_bulk ag collection opsResults =
     foldl (\<lambda>a (docId, ops). foldl (\<lambda>b x. sendOp b collection (JStr docId) x) a ops) ag
       (for_in opsResults)"

definition sendQueryResults_callback ::
  "agent \<Rightarrow> jsval \<Rightarrow> jsval \<Rightarrow> jsval \<Rightarrow> versions option \<Rightarrow> qresult list \<Rightarrow> jsval \<Rightarrow>
   jsval \<Rightarrow> (string \<times> oprec list) list \<Rightarrow> agent" where
  "sendQueryResults_callback ag req queryId collection versions results extra err opsResults =
     (if truthy err then reply ag req err None
      else reply (send_ops_bulk ag collection opsResults) req JNull
             (Some (query_reply queryId results versions extra)))"

text \<open>
  The callbacks \<^verbatim>\<open>_querySubscribe\<close> and \<^verbatim>\<open>_queryFetch\<close> give to the Backend.
  \<open>versions\<close> is the \<open>versions\<close> of the options made from the request.
\<close>

definition querySubscribe_callback ::
  "agent \<Rightarrow> jsval \<Rightarrow> int \<Rightarrow> versions option \<Rightarrow> jsval \<Rightarrow> emitter \<Rightarrow> qresult list \<Rightarrow> jsval \<Rightarrow> agent" where
  "querySubscribe_callback ag req queryId versions err em results extra =
     (if truthy err then reply ag req err None
      else sendQueryResults (subscribeToQuery ag em queryId) req (JNum queryId)
             (js_get req ''c'') versions results extra)"

definition queryFetch_callback ::
  "agent \<Rightarrow> jsval \<Rightarrow> versions option \<Rightarrow> jsval \<Rightarrow> qresult list \<Rightarrow> jsval \<Rightarrow> agent" where
  "queryFetch_callback ag req versions err results extra =
     (if truthy err then reply ag req err None
      else sendQueryResults ag req (js_get req ''id'') (js_get req ''c'') versions results extra)"

section \<open>Bulk subscribe\<close>

text \<open>The decimal numeral of a number, for the property names of an array's indices.\<close>

fun show_nat :: "nat \<Rightarrow> string" where
  "show_nat n =
     (if n < 10 then [char_of (48 + n)]
      else show_nat (n div 10) @ [char_of (48 + n mod 10)])"

text \<open>The property names \<^verbatim>\<open>for (var k in x)\<close> visits, in the order it visits them.\<close>

fun js_keys :: "jsval \<Rightarrow> string list" where
  "js_keys (JObj kvs) = map fst (for_in kvs)"
| "js_keys (JArr xs) = map show_nat [0..<length xs]"
| "js_keys (JStr s) = map show_nat [0..<length s]"
| "js_keys v = []"

text \<open>
  The leak-prevention sweep of \<^verbatim>\<open>_bulkSubscribe\<close> (lines 444 to 451). For each
  collection of the request, \<^verbatim>\<open>docs = agent.subscribedDocs[collection]\<close>; when that is
  truthy, for every document id the request names under the collection
  \<^verbatim>\<open>stream = docs[id]\<close>, and \<^verbatim>\<open>stream.destroy()\<close> when that is truthy. Both reads
  are reads of a plain object: for a document id that is a name of
  \<^verbatim>\<open>Object.prototype\<close> and is not stored, \<open>stream\<close> is the inherited function and
  \<^verbatim>\<open>destroy()\<close> throws.
\<close>

fun sweep_ids :: "agent \<Rightarrow> (string \<times> stream) list \<Rightarrow> string list \<Rightarrow> agent outcome" where
  "sweep_ids ag docs [] = Returns ag"
| "sweep_ids ag docs (docId # rest) =
     (case slot docs docId of
        Own s \<Rightarrow> sweep_ids (emit ag (DestroyStream s)) docs rest
      | Inherited \<Rightarrow> Throws ag
      | Absent \<Rightarrow> sweep_ids ag docs rest)"

fun sweep_collections :: "agent \<Rightarrow> jsval \<Rightarrow> string list \<Rightarrow> agent outcome" where
  "sweep_collections ag request [] = Returns ag"
| "sweep_collections ag request (collection # rest) =
     (case slot (subscribedDocs ag) collection of
        Absent \<Rightarrow> sweep_collections ag request rest
      | Inherited \<Rightarrow> RuntimeObject ag
      | Own docs \<Rightarrow>
          (case sweep_ids ag docs (js_keys (js_get request collection)) of
             Returns ag' \<Rightarrow> sweep_collections ag' request rest
           | r \<Rightarrow> r))"

definition sweep :: "agent \<Rightarrow> jsval \<Rightarrow> agent outcome" where
  "sweep ag request = sweep_collections ag request (js_keys request)"

text \<open>
  The function \<^verbatim>\<open>_bulkSubscribe\<close> gives to \<^verbatim>\<open>async.forEachOf\<close> as its last
  argument (lines 439 to 455), called with the first error or with none: without an
  error it replies with the response, with an error it sweeps and then replies with the
  error.
\<close>

definition bulk_success :: "agent \<Rightarrow> jsval \<Rightarrow> (string \<times> jsval) list \<Rightarrow> agent" where
  "bulk_success ag req response = reply ag req JNull (Some [(''s'', JObj response)])"

definition bulk_final :: "agent \<Rightarrow> jsval \<Rightarrow> (string \<times> jsval) list \<Rightarrow> jsval \<Rightarrow> agent outcome" where
  "bulk_final ag req response err =
     (if truthy err then
        (case sweep ag (js_get req ''s'') of
           Returns ag' \<Rightarrow> Returns (reply ag' req err None)
         | r \<Rightarrow> r)
      else Returns (bulk_success ag req response))"

text \<open>
  The loop of the callback given to \<^verbatim>\<open>backend.subscribeBulk\<close> (lines 431 to 435): each
  stream is installed, and a document without a snapshot gets \<open>true\<close> in the snapshot map
  (\<^verbatim>\<open>if (!snapshotMap[id]) snapshotMap[id] = true\<close>, a read and an assignment on a plain
  object). An installation that throws ends the loop and the callback.
\<close>

definition thumbs_up :: "(string \<times> jsval) list \<Rightarrow> string \<Rightarrow> (string \<times> jsval) list" where
  "thumbs_up snapshotMap docId =
     (case slot snapshotMap docId of
        Own v \<Rightarrow> if truthy v then snapshotMap else put snapshotMap docId (JBool True)
      | Inherited \<Rightarrow> snapshotMap
      | Absent \<Rightarrow> put snapshotMap docId (JBool True))"

fun install_streams ::
  "agent \<Rightarrow> string \<Rightarrow> (string \<times> stream) list \<Rightarrow> (string \<times> jsval) list \<Rightarrow>
   (agent \<times> (string \<times> jsval) list) outcome" where
  "install_streams ag collection [] snapshotMap = Returns (ag, snapshotMap)"
| "install_streams ag collection ((docId, s) # rest) snapshotMap =
     (case subscribeToStream ag collection docId s of
        Returns ag' \<Rightarrow> install_streams ag' collection rest (thumbs_up snapshotMap docId)
      | Throws ag' \<Rightarrow> Throws (ag', snapshotMap)
      | RuntimeObject ag' \<Rightarrow> RuntimeObject (ag', snapshotMap))"

text \<open>
  \<^verbatim>\<open>async.forEachOf(request, iterator, callback)\<close> is a function of the async library
  (version 1), which is not part of this repository. Its contract, as the agent uses it:
  the iterator is called once for each key of the collection (none for \<open>null\<close>, which
  it takes for an empty collection; the indices below the length for an array and for an
  object whose \<open>length\<close> is a number that is not negative); when an iterator reports an
  error the callback is called with it at once, when all have reported without an error
  the callback is called with no error, and once the callback has returned it is not
  called again. The Backend answers each call later, after all the calls have been made.
  The state of one run: the \<open>response\<close> variable of \<^verbatim>\<open>_bulkSubscribe\<close>, the number of
  iterators that have not reported yet, and whether the callback has been called and has
  returned.
\<close>

record bulk_state =
  bs_response :: "(string \<times> jsval) list"
  bs_pending :: nat
  bs_called :: bool

fun forEachOf_items :: "jsval \<Rightarrow> (jsval \<times> jsval) list" where
  "forEachOf_items (JObj kvs) =
     (case js_get (JObj kvs) ''length'' of
        JNum n \<Rightarrow>
          if 0 \<le> n
          then map (\<lambda>i. (JNum (int i), js_get (JObj kvs) (show_nat i))) [0..<nat n]
          else map (\<lambda>k. (JStr k, js_get (JObj kvs) k)) (js_keys (JObj kvs))
      | _ \<Rightarrow> map (\<lambda>k. (JStr k, js_get (JObj kvs) k)) (js_keys (JObj kvs)))"
| "forEachOf_items (JArr xs) = map (\<lambda>i. (JNum (int i), xs ! i)) [0..<length xs]"
| "forEachOf_items v = []"

text \<open>The callback of \<^verbatim>\<open>forEachOf\<close> is called, when it has not been before.\<close>

definition bulk_finish ::
  "agent \<Rightarrow> bulk_state \<Rightarrow> jsval \<Rightarrow> jsval \<Rightarrow> (agent \<times> bulk_state) outcome" where
  "bulk_finish ag bs req err =
     (if bs_called bs then Returns (ag, bs)
      else
        (case bulk_final ag req (bs_response bs) err of
           Returns ag' \<Rightarrow> Returns (ag', bs\<lparr>bs_called := True\<rparr>)
         | Throws ag' \<Rightarrow> Throws (ag', bs)
         | RuntimeObject ag' \<Rightarrow> RuntimeObject (ag', bs)))"

text \<open>An iterator reports (\<^verbatim>\<open>eachCb(err)\<close>).\<close>

definition bulk_report ::
  "agent \<times> bulk_state \<Rightarrow> jsval \<Rightarrow> jsval \<Rightarrow> (agent \<times> bulk_state) outcome" where
  "bulk_report st req err =
     (let ag = fst st; bs = (snd st)\<lparr>bs_pending := bs_pending (snd st) - 1\<rparr> in
      if truthy err then bulk_finish ag bs req err
      else if bs_pending bs = 0 then bulk_finish ag bs req JNull
      else Returns (ag, bs))"

text \<open>
  \<^verbatim>\<open>Agent.prototype._bulkSubscribe\<close>, up to the calls on the Backend: one for each
  collection of the request. With no collection the callback is called at once, with no
  error.
\<close>

definition bulkSubscribe :: "agent \<Rightarrow> jsval \<Rightarrow> agent \<times> bulk_state" where
  "bulkSubscribe ag req =
     (let items = forEachOf_items (js_get req ''s'');
          ag1 = foldl (\<lambda>a (collection, versions). emit a (Backend (BSubscribeBulk collection versions)))
                  ag items;
          bs = \<lparr>bs_response = [], bs_pending = length items, bs_called = False\<rparr>
      in if items = [] then (bulk_success ag1 req [], bs\<lparr>bs_called := True\<rparr>)
         else (ag1, bs))"

text \<open>
  The callback given to \<^verbatim>\<open>backend.subscribeBulk\<close> for \<open>collection\<close> (lines 429 to
  438), called with \<open>(err, streams, snapshotMap)\<close>. \<open>collection\<close> is the property name
  of the key \<^verbatim>\<open>forEachOf\<close> gave. Line 436, \<^verbatim>\<open>response[collection] = snapshotMap\<close>,
  is an assignment to a plain object.
\<close>

definition bulk_callback ::
  "agent \<times> bulk_state \<Rightarrow> jsval \<Rightarrow> string \<Rightarrow>
   jsval \<times> (string \<times> stream) list \<times> (string \<times> jsval) list \<Rightarrow> (agent \<times> bulk_state) outcome" where
  "bulk_callback st req collection res =
     (let err = fst res; streams = fst (snd res); snapshotMap = snd (snd res) in
      if truthy err then bulk_report st req err
      else
        (case install_streams (fst st) collection (for_in streams) snapshotMap of
           Returns inst \<Rightarrow>
             bulk_report
               (fst inst,
                (snd st)\<lparr>bs_response := put (bs_response (snd st)) collection (JObj (snd inst))\<rparr>)
               req JUndefined
         | Throws inst \<Rightarrow> Throws (fst inst, snd st)
         | RuntimeObject inst \<Rightarrow> RuntimeObject (fst inst, snd st)))"

text \<open>The callbacks of one bulk subscribe, in the order the Backend completes, up to the
  first that does not return.\<close>

fun bulk_run ::
  "agent \<times> bulk_state \<Rightarrow> jsval \<Rightarrow>
   (string \<times> jsval \<times> (string \<times> stream) list \<times> (string \<times> jsval) list) list \<Rightarrow>
   (agent \<times> bulk_state) outcome" where
  "bulk_run st req [] = Returns st"
| "bulk_run st req ((collection, res) # rest) =
     (case bulk_callback st req collection res of
        Returns st' \<Rightarrow> bulk_run st' req rest
      | r \<Rightarrow> r)"

section \<open>The message pump\<close>

text \<open>\<^verbatim>\<open>Agent.prototype._handleMessage\<close>. Reading \<^verbatim>\<open>req.a\<close> of \<open>null\<close> or
  \<open>undefined\<close> throws. What \<^verbatim>\<open>_unsubscribe\<close> throws, it throws.\<close>

definition ended :: "agent outcome \<Rightarrow> js_error + agent" where
  "ended r =
     (case r of
        Returns ag \<Rightarrow> Inr ag
      | Throws ag \<Rightarrow> Inl TypeError
      | RuntimeObject ag \<Rightarrow> Inl RuntimeObjectUsed)"

definition handleMessage :: "agent \<Rightarrow> jsval \<Rightarrow> js_error + agent" where
  "handleMessage ag req =
     (if nullish req then Inl TypeError
      else
        let errMessage = checkRequest req; a = js_get req ''a'' in
        if truthy errMessage
          then Inr (reply ag req (JObj [(''code'', JNum 4000), (''message'', errMessage)]) None)
        else if strict_eq a (JStr ''qsub'') then Inr (querySubscribe ag req)
        else if strict_eq a (JStr ''qresub'') then Inr (queryResubscribe ag req)
        else if strict_eq a (JStr ''qunsub'') then Inr (queryUnsubscribe ag req)
        else if strict_eq a (JStr ''qfetch'') then Inr (queryFetch ag req)
        else if strict_eq a (JStr ''bs'') then Inr (fst (bulkSubscribe ag req))
        else if strict_eq a (JStr ''sub'') then Inr (subscribe ag req)
        else if strict_eq a (JStr ''unsub'') then ended (unsubscribe ag req)
        else if strict_eq a (JStr ''fetch'') then Inr (fetch ag req)
        else if strict_eq a (JStr ''op'') then Inr (submit ag req)
        else Inr (reply ag req
                    (JObj [(''code'', JNum 4000), (''message'', JStr ''Invalid or unknown message'')])
                    None))"

text \<open>
  One turn of \<^verbatim>\<open>Agent.prototype.pump\<close> with \<open>req\<close> what \<^verbatim>\<open>stream.read()\<close> gave.
  \<open>parse\<close> is \<^verbatim>\<open>JSON.parse\<close>: the value, or the error it throws.
\<close>

definition pump :: "(string \<Rightarrow> jsval + jsval) \<Rightarrow> bool \<Rightarrow> agent \<Rightarrow> jsval \<Rightarrow> js_error + agent" where
  "pump parse sync_end ag req =
     (if closed ag then Inr ag
      else if nullish req then Inr ag
      else
        (case req of
           JStr text \<Rightarrow>
             (case parse text of
                Inl e \<Rightarrow> handleMessage (close_agent sync_end ag e) req
              | Inr parsed \<Rightarrow> handleMessage ag parsed)
         | _ \<Rightarrow> handleMessage ag req))"

text \<open>
  A JavaScript object has each property once. For the two levels of \<open>subscribedDocs\<close>:
\<close>

definition docs_wf :: "agent \<Rightarrow> bool" where
  "docs_wf ag =
     (distinct (map fst (subscribedDocs ag)) \<and>
      list_all (\<lambda>(collection, docs). distinct (map fst docs)) (subscribedDocs ag))"

text \<open>The messages written to the client, in order.\<close>

fun written :: "event list \<Rightarrow> jsval list" where
  "written [] = []"
| "written (Write m # es) = m # written es"
| "written (e # es) = written es"

text \<open>A new agent, before its constructor sends \<^verbatim>\<open>init\<close>.\<close>

definition new_agent :: "string \<Rightarrow> agent" where
  "new_agent cid =
     \<lparr>clientId = cid, closed = False, subscribedDocs = [], subscribedQueries = [], trace = []\<rparr>"

section \<open>What \<open>emit\<close>, \<open>send\<close> and \<open>reply\<close> change\<close>

lemma emit_fields [simp]:
  "trace (emit ag e) = trace ag @ [e]"
  "closed (emit ag e) = closed ag"
  "subscribedDocs (emit ag e) = subscribedDocs ag"
  "subscribedQueries (emit ag e) = subscribedQueries ag"
  "clientId (emit ag e) = clientId ag"
  by (simp_all add: emit_def)

lemma send_fields [simp]:
  "trace (send ag m) = trace ag @ (if closed ag then [] else [Write m])"
  "closed (send ag m) = closed ag"
  "subscribedDocs (send ag m) = subscribedDocs ag"
  "subscribedQueries (send ag m) = subscribedQueries ag"
  "clientId (send ag m) = clientId ag"
  by (simp_all add: send_def)

lemma reply_fields [simp]:
  "trace (reply ag req err msg) =
     trace ag @ (if closed ag then [] else [Write (reply_message req err msg)])"
  "closed (reply ag req err msg) = closed ag"
  "subscribedDocs (reply ag req err msg) = subscribedDocs ag"
  "subscribedQueries (reply ag req err msg) = subscribedQueries ag"
  "clientId (reply ag req err msg) = clientId ag"
  by (simp_all add: reply_def)

lemma sendOp_fields [simp]:
  "trace (sendOp ag c d x) = trace ag @ (if closed ag then [] else [Write (op_message c d x)])"
  "closed (sendOp ag c d x) = closed ag"
  "subscribedDocs (sendOp ag c d x) = subscribedDocs ag"
  "subscribedQueries (sendOp ag c d x) = subscribedQueries ag"
  "clientId (sendOp ag c d x) = clientId ag"
  by (simp_all add: sendOp_def)

text \<open>
  \<^verbatim>\<open>_cleanup\<close> closes the agent and leaves it without a subscription, and
  \<^verbatim>\<open>_subscribeToStream\<close> and \<^verbatim>\<open>_subscribeToQuery\<close> give a closed agent none: a
  stream or a query that is subscribed belongs to an agent that is open.
\<close>

lemma destroy_docs_fields:
  "closed (destroy_docs ag docs) = closed ag \<and>
   subscribedDocs (destroy_docs ag docs) = subscribedDocs ag \<and>
   subscribedQueries (destroy_docs ag docs) = subscribedQueries ag"
proof -
  have "closed (foldl (\<lambda>a (docId, s). emit a (DestroyStream s)) a0 xs) = closed a0 \<and>
        subscribedDocs (foldl (\<lambda>a (docId, s). emit a (DestroyStream s)) a0 xs) = subscribedDocs a0 \<and>
        subscribedQueries (foldl (\<lambda>a (docId, s). emit a (DestroyStream s)) a0 xs) =
          subscribedQueries a0" for a0 :: agent and xs :: "(string \<times> stream) list"
    by (induction xs arbitrary: a0) (simp_all split: prod.splits)
  then show ?thesis
    unfolding destroy_docs_def by simp
qed

lemma cleanup_releases_everything:
  "closed (cleanup ag) \<and>
   (\<not> closed ag \<longrightarrow> subscribedDocs (cleanup ag) = [] \<and> subscribedQueries (cleanup ag) = [])"
proof -
  have q: "closed (foldl (\<lambda>a (queryId, em). emit a (DestroyEmitter (e_ref em))) a0 qs) = closed a0 \<and>
           subscribedDocs (foldl (\<lambda>a (queryId, em). emit a (DestroyEmitter (e_ref em))) a0 qs) =
             subscribedDocs a0" for a0 :: agent and qs :: "(int \<times> emitter) list"
    by (induction qs arbitrary: a0) (simp_all split: prod.splits)
  have d: "closed (foldl (\<lambda>a (collection, docs). destroy_docs a docs) a0 ds) = closed a0"
    for a0 :: agent and ds :: "(string \<times> (string \<times> stream) list) list"
    by (induction ds arbitrary: a0) (simp_all add: destroy_docs_fields split: prod.splits)
  show ?thesis
    by (simp add: cleanup_def Let_def q d)
qed

lemma closed_agent_subscribes_nothing:
  "closed ag \<Longrightarrow>
   subscribedDocs (state_of (subscribeToStream ag c d s)) = subscribedDocs ag \<and>
   subscribedQueries (subscribeToQuery ag em queryId) = subscribedQueries ag"
  by (simp add: subscribeToStream_def subscribeToQuery_def)

section \<open>Own operations are not echoed\<close>

text \<open>
  C1. An operation delivered on a subscribed DocStream, or through the \<open>onOp\<close> hook of a
  QueryEmitter, whose \<open>src\<close> is the agent's \<open>clientId\<close> and whose source collection
  (\<open>op.i\<close> when it is there, \<open>op.c\<close> otherwise: the value of \<^verbatim>\<open>op.i || op.c\<close>, so
  "there" is truthy) is the collection of the stream or query, changes nothing: no
  message is written. Every other operation is translated by \<^verbatim>\<open>_sendOp\<close> and sent, on
  a DocStream when it has no truthy \<open>error\<close> field; \<^verbatim>\<open>_send\<close> writes the message to the
  client's stream unless the agent has been closed.
\<close>

theorem own_ops_are_not_forwarded:
  "(op_src x = JStr (clientId ag) \<and>
    collection = (if truthy (op_i x) then op_i x else op_c x) \<longrightarrow>
      stream_on_data ag collection docId x = ag \<and> emitter_onOp ag collection x = ag) \<and>
   (\<not> (op_src x = JStr (clientId ag) \<and>
        collection = (if truthy (op_i x) then op_i x else op_c x)) \<longrightarrow>
      (\<not> truthy (op_error x) \<longrightarrow>
         stream_on_data ag collection docId x =
           (if closed ag then ag
            else ag\<lparr>trace := trace ag @ [Write (op_message collection docId x)]\<rparr>)) \<and>
      emitter_onOp ag collection x =
        (if closed ag then ag
         else ag\<lparr>trace := trace ag @ [Write (op_message collection (op_d x) x)]\<rparr>))"
  by (auto simp add: stream_on_data_def emitter_onOp_def isOwnOp_def strict_eq_def js_or_def
      sendOp_def send_def emit_def)

theorem own_ops_are_not_forwarded_witness:
  "stream_on_data (new_agent ''agent1'') (JStr ''users'') (JStr ''fred'')
     (no_op\<lparr>op_src := JStr ''agent1'', op_seq := JNum 1, op_v := JNum 5,
            op_op := JArr [JNum 1], op_c := JStr ''users'', op_d := JStr ''fred''\<rparr>)
     = new_agent ''agent1'' \<and>
   emitter_onOp (new_agent ''agent1'') (JStr ''users'')
     (no_op\<lparr>op_src := JStr ''agent1'', op_seq := JNum 1, op_v := JNum 5,
            op_op := JArr [JNum 1], op_c := JStr ''users'', op_d := JStr ''fred''\<rparr>)
     = new_agent ''agent1'' \<and>
   stream_on_data (new_agent ''agent1'') (JStr ''users'') (JStr ''fred'')
     (no_op\<lparr>op_src := JStr ''agent2'', op_seq := JNum 1, op_v := JNum 5,
            op_op := JArr [JNum 1], op_c := JStr ''users'', op_d := JStr ''fred''\<rparr>)
     = (new_agent ''agent1'')\<lparr>trace :=
         [Write (JObj [(''a'', JStr ''op''), (''c'', JStr ''users''), (''d'', JStr ''fred''),
                       (''v'', JNum 5), (''src'', JStr ''agent2''), (''seq'', JNum 1),
                       (''op'', JArr [JNum 1])])]\<rparr>"
  using
    own_ops_are_not_forwarded [where ag = "new_agent ''agent1''" and collection = "JStr ''users''"
      and docId = "JStr ''fred''"
      and x = "no_op\<lparr>op_src := JStr ''agent1'', op_seq := JNum 1, op_v := JNum 5,
            op_op := JArr [JNum 1], op_c := JStr ''users'', op_d := JStr ''fred''\<rparr>"]
    own_ops_are_not_forwarded [where ag = "new_agent ''agent1''" and collection = "JStr ''users''"
      and docId = "JStr ''fred''"
      and x = "no_op\<lparr>op_src := JStr ''agent2'', op_seq := JNum 1, op_v := JNum 5,
            op_op := JArr [JNum 1], op_c := JStr ''users'', op_d := JStr ''fred''\<rparr>"]
  by (simp add: no_op_def new_agent_def op_message_def set_if_def js_set_def)

section \<open>Submit\<close>

lemma sendOp_list_fields:
  "trace (foldl (\<lambda>a x. sendOp a c d x) ag xs) =
     trace ag @ (if closed ag then [] else map (\<lambda>x. Write (op_message c d x)) xs) \<and>
   closed (foldl (\<lambda>a x. sendOp a c d x) ag xs) = closed ag \<and>
   subscribedDocs (foldl (\<lambda>a x. sendOp a c d x) ag xs) = subscribedDocs ag"
  by (induction xs arbitrary: ag) auto

text \<open>
  When \<^verbatim>\<open>_createOp\<close> has built an operation, the callback of \<^verbatim>\<open>backend.submit\<close>
  does what C4 says: on an error of code 4001 the acknowledgement alone, on another error
  the error alone, and without an error the missed operations and then the
  acknowledgement; nothing is written once the agent is closed.
\<close>

lemma submit_callback_replies:
  assumes "createOp ag req = Some opr"
  shows "\<exists>ag'. submit_callback ag req mutate err ops = Inr ag' \<and>
     trace ag' = trace ag @
       (if closed ag then []
        else if truthy err then
          (if js_get err ''code'' = JNum 4001
           then [Write (reply_message req JNull
                   (Some [(''src'', op_src (mutate opr)), (''seq'', op_seq (mutate opr)),
                          (''v'', op_v (mutate opr))]))]
           else [Write (reply_message req err None)])
        else map (\<lambda>x. Write (op_message (js_get req ''c'') (js_get req ''d'') x)) ops @
             [Write (reply_message req JNull
                   (Some [(''src'', op_src (mutate opr)), (''seq'', op_seq (mutate opr)),
                          (''v'', op_v (mutate opr))]))])"
  using assms by (simp add: submit_callback_def strict_eq_def sendOp_list_fields)

text \<open>
  C4. A request \<^verbatim>\<open>{a:'op', c:'users', d:'fred', v:5, seq:1}\<close> has no \<open>op\<close>,
  \<open>create\<close> or \<open>del\<close>. It passes validation and \<^verbatim>\<open>backend.submit\<close> is called with
  \<open>undefined\<close> for the operation. When the Backend completes, here with the error of code
  4001, the callback throws a TypeError on \<^verbatim>\<open>op.src\<close> before it looks at the error: no
  acknowledgement and no error is replied, whatever the Backend answered.
\<close>

theorem submit_callback_without_op_throws:
  "handleMessage (new_agent ''agent1'')
     (JObj [(''a'', JStr ''op''), (''c'', JStr ''users''), (''d'', JStr ''fred''),
            (''v'', JNum 5), (''seq'', JNum 1)])
   = Inr ((new_agent ''agent1'')\<lparr>trace :=
       [Backend (BSubmit (JStr ''users'') (JStr ''fred'') None)]\<rparr>) \<and>
   submit_callback ag
     (JObj [(''a'', JStr ''op''), (''c'', JStr ''users''), (''d'', JStr ''fred''),
            (''v'', JNum 5), (''seq'', JNum 1)])
     mutate (JObj [(''code'', JNum 4001), (''message'', JStr ''Op already submitted'')]) ops
   = Inl TypeError"
  by (simp add: handleMessage_def checkRequest_def strict_eq_def submit_def createOp_def
      submit_callback_def new_agent_def emit_def)

text \<open>
  C10, as the code has it. A request with the action \<open>op\<close> and none of the fields
  \<open>op\<close>, \<open>create\<close>, \<open>del\<close> is still checked for its \<open>c\<close>, \<open>d\<close> and \<open>v\<close>: with
  a number for \<open>c\<close> it is rejected with the code 4000 and \<^verbatim>\<open>backend.submit\<close> is not
  called.
\<close>

theorem op_without_op_invalid_collection_rejected:
  "js_get (JObj [(''a'', JStr ''op''), (''c'', JNum 5)]) ''a'' = JStr ''op'' \<and>
   js_get (JObj [(''a'', JStr ''op''), (''c'', JNum 5)]) ''op'' = JUndefined \<and>
   js_get (JObj [(''a'', JStr ''op''), (''c'', JNum 5)]) ''create'' = JUndefined \<and>
   js_get (JObj [(''a'', JStr ''op''), (''c'', JNum 5)]) ''del'' = JUndefined \<and>
   checkRequest (JObj [(''a'', JStr ''op''), (''c'', JNum 5)]) = JStr ''Invalid collection'' \<and>
   handleMessage (new_agent ''agent1'') (JObj [(''a'', JStr ''op''), (''c'', JNum 5)])
     = Inr ((new_agent ''agent1'')\<lparr>trace :=
         [Write (JObj [(''error'', JObj [(''code'', JNum 4000),
                                         (''message'', JStr ''Invalid collection'')]),
                       (''a'', JStr ''op''), (''c'', JNum 5)])]\<rparr>)"
  by (simp add: handleMessage_def checkRequest_def strict_eq_def
      new_agent_def reply_def reply_message_def send_def emit_def set_if_def js_set_def)

text \<open>
  C10, amended. For a request with the action \<open>op\<close> that has none of the fields \<open>op\<close>,
  \<open>create\<close>, \<open>del\<close>, and whose \<open>c\<close> and \<open>d\<close> are missing or strings and whose
  \<open>v\<close> is missing or a number that is not negative: validation finds no error,
  \<^verbatim>\<open>_createOp\<close> returns \<open>undefined\<close>, and the agent calls \<^verbatim>\<open>backend.submit\<close> with
  that \<open>undefined\<close> as the operation and writes nothing.
\<close>

theorem op_without_op_is_submitted:
  assumes "js_get req ''a'' = JStr ''op''"
    and "js_get req ''op'' = JUndefined"
    and "js_get req ''create'' = JUndefined"
    and "js_get req ''del'' = JUndefined"
    and "nullish (js_get req ''c'') \<or> typeof (js_get req ''c'') = ''string''"
    and "nullish (js_get req ''d'') \<or> typeof (js_get req ''d'') = ''string''"
    and "nullish (js_get req ''v'') \<or> (\<exists>n\<ge>0. js_get req ''v'' = JNum n)"
  shows "checkRequest req = JUndefined \<and> createOp ag req = None \<and>
         handleMessage ag req =
           Inr (ag\<lparr>trace := trace ag @
                  [Backend (BSubmit (js_get req ''c'') (js_get req ''d'') None)]\<rparr>)"
proof -
  have obj: "\<not> nullish req"
    using assms(1) by (cases req) simp_all
  have chk: "checkRequest req = JUndefined"
    using assms(1,5,6,7) by (auto simp add: checkRequest_def strict_eq_def)
  have noop: "createOp ag req = None"
    using assms(2,3,4) by (simp add: createOp_def)
  show ?thesis
    using obj chk noop assms(1)
    by (simp add: handleMessage_def strict_eq_def submit_def emit_def)
qed

theorem op_without_op_is_submitted_witness:
  "checkRequest (JObj [(''a'', JStr ''op''), (''c'', JStr ''users''), (''d'', JStr ''fred''),
            (''v'', JNum 5), (''seq'', JNum 1)]) = JUndefined \<and>
   createOp (new_agent ''agent1'')
     (JObj [(''a'', JStr ''op''), (''c'', JStr ''users''), (''d'', JStr ''fred''),
            (''v'', JNum 5), (''seq'', JNum 1)]) = None \<and>
   handleMessage (new_agent ''agent1'')
     (JObj [(''a'', JStr ''op''), (''c'', JStr ''users''), (''d'', JStr ''fred''),
            (''v'', JNum 5), (''seq'', JNum 1)]) =
     Inr ((new_agent ''agent1'')\<lparr>trace :=
            [Backend (BSubmit (JStr ''users'') (JStr ''fred'') None)]\<rparr>)"
  using op_without_op_is_submitted [where ag = "new_agent ''agent1''" and
    req = "JObj [(''a'', JStr ''op''), (''c'', JStr ''users''), (''d'', JStr ''fred''),
            (''v'', JNum 5), (''seq'', JNum 1)]"]
  by (simp add: new_agent_def)

section \<open>Validation and the message pump\<close>

text \<open>
  A bulk subscribe whose \<open>s\<close> is \<open>undefined\<close>, a boolean, a number or a string is
  rejected with the code 4000, and the Backend is not called.
\<close>

lemma bulk_subscribe_non_object_rejected:
  assumes "js_get req ''a'' = JStr ''bs''" and "typeof (js_get req ''s'') \<noteq> ''object''"
  shows "handleMessage ag req =
           Inr (reply ag req
                  (JObj [(''code'', JNum 4000), (''message'', JStr ''Invalid bulk subscribe data'')])
                  None)"
proof -
  have "\<not> nullish req"
    using assms(1) by (cases req) simp_all
  moreover have "checkRequest req = JStr ''Invalid bulk subscribe data''"
    using assms by (simp add: checkRequest_def strict_eq_def)
  ultimately show ?thesis
    by (simp add: handleMessage_def)
qed

text \<open>
  C8. The request \<^verbatim>\<open>{a:'bs', s:null}\<close> has no object for \<open>s\<close>, but
  \<^verbatim>\<open>typeof null\<close> is \<^verbatim>\<open>'object'\<close>, so \<^verbatim>\<open>_checkRequest\<close> lets it pass: the agent
  replies \<^verbatim>\<open>{s:{}, a:'bs'}\<close>, a success, and no error of code 4000.
\<close>

theorem bulk_subscribe_null_is_accepted:
  "handleMessage (new_agent ''agent1'') (JObj [(''a'', JStr ''bs''), (''s'', JNull)])
   = Inr ((new_agent ''agent1'')\<lparr>trace :=
       [Write (JObj [(''s'', JObj []), (''a'', JStr ''bs'')])]\<rparr>)"
  by (simp add: handleMessage_def checkRequest_def strict_eq_def bulkSubscribe_def bulk_success_def
      new_agent_def reply_def reply_message_def send_def emit_def set_if_def js_set_def)

text \<open>The errors of validation have the code 4000 beside their message.\<close>

lemma validation_errors_carry_code:
  assumes "\<not> nullish req" and "truthy (checkRequest req)"
  shows "handleMessage ag req =
           Inr (reply ag req (JObj [(''code'', JNum 4000), (''message'', checkRequest req)]) None)"
  using assms by (simp add: handleMessage_def)

text \<open>
  C9. The request \<^verbatim>\<open>{a:'qresub', id:7, q:{}}\<close> to an agent with no query 7 is
  answered with an error object that has a \<open>message\<close> and no \<open>code\<close>.
\<close>

theorem qresub_unknown_query_error_has_no_code:
  "handleMessage (new_agent ''agent1'')
     (JObj [(''a'', JStr ''qresub''), (''id'', JNum 7), (''q'', JObj [])])
   = Inr ((new_agent ''agent1'')\<lparr>trace :=
       [Write (JObj [(''error'', JObj [(''message'', JStr ''Can not find query to resubscribe'')]),
                     (''a'', JStr ''qresub''), (''id'', JNum 7)])]\<rparr>) \<and>
   typeof (js_get (JObj [(''message'', JStr ''Can not find query to resubscribe'')]) ''code'')
     = ''undefined''"
  by (simp add: handleMessage_def checkRequest_def strict_eq_def queryResubscribe_def
      lookup_query_def new_agent_def reply_def reply_message_def send_def emit_def set_if_def
      js_set_def)

text \<open>A text that parses is handled as the value it parses to.\<close>

lemma pump_parsed_is_dispatched:
  "\<not> closed ag \<Longrightarrow> parse text = Inr v \<Longrightarrow>
   pump parse sync_end ag (JStr text) = handleMessage ag v"
  by (simp add: pump_def)

text \<open>
  After \<^verbatim>\<open>JSON.parse\<close> has thrown, \<^verbatim>\<open>pump\<close> closes the agent and goes on to
  \<^verbatim>\<open>_handleMessage\<close> with the text it could not parse: the \<open>catch\<close> block does not
  return.
\<close>

lemma pump_invalid_json_calls_handleMessage:
  "\<not> closed ag \<Longrightarrow> parse text = Inl e \<Longrightarrow>
   pump parse sync_end ag (JStr text) = handleMessage (close_agent sync_end ag e) (JStr text)"
  by (simp add: pump_def)

text \<open>
  C5. The text \<^verbatim>\<open>{\<close> is not JSON. With a stream that emits \<^verbatim>\<open>'end'\<close> after
  \<^verbatim>\<open>stream.end()\<close> has returned, the agent emits the parse error, ends the stream, and
  then validates the text as a request and replies to it: \<open>Invalid action\<close>, code 4000.
\<close>

theorem pump_invalid_json_is_validated:
  "pump (\<lambda>text. Inl (JObj [(''name'', JStr ''SyntaxError'')])) False (new_agent ''agent1'')
     (JStr ''{'')
   = Inr ((new_agent ''agent1'')\<lparr>trace :=
       [EmitError (JObj [(''name'', JStr ''SyntaxError'')]), StreamEnd,
        Write (JObj [(''error'', JObj [(''code'', JNum 4000),
                                        (''message'', JStr ''Invalid action'')]),
                     (''a'', JUndefined)])]\<rparr>)"
  by (simp add: pump_def close_agent_def handleMessage_def checkRequest_def strict_eq_def
      new_agent_def reply_def reply_message_def send_def emit_def set_if_def js_set_def
      is_index_def)

section \<open>Reading and writing plain objects\<close>


lemma slot_Own: "slot kvs k = Own v \<longleftrightarrow> map_of kvs k = Some v"
  by (simp add: slot_def split: option.splits)

lemma slot_Inherited: "slot kvs k = Inherited \<longleftrightarrow> map_of kvs k = None \<and> inherited k"
  by (simp add: slot_def split: option.splits)

lemma slot_Absent: "slot kvs k = Absent \<longleftrightarrow> map_of kvs k = None \<and> \<not> inherited k"
  by (simp add: slot_def split: option.splits)

lemma inherited_proto: "inherited ''__proto__''"
  by (simp add: inherited_def object_prototype_names_def)

lemma map_of_put:
  "map_of (put kvs k v) k' =
     (if k' = k \<and> (k = ''__proto__'' \<longrightarrow> map_of kvs k \<noteq> None) then Some v else map_of kvs k')"
  by (auto simp add: put_def update_conv')

lemma distinct_put: "distinct (map fst kvs) \<Longrightarrow> distinct (map fst (put kvs k v))"
  by (simp add: put_def distinct_update)

lemma list_all_update:
  "list_all P al \<Longrightarrow> P (k, v) \<Longrightarrow> list_all P (AList.update k v al)"
  by (induction al) auto

lemma list_all_put: "list_all P al \<Longrightarrow> P (k, v) \<Longrightarrow> list_all P (put al k v)"
  by (simp add: put_def list_all_update)

section \<open>Query results\<close>






text \<open>
  The read \<^verbatim>\<open>versions[id]\<close> goes through \<^verbatim>\<open>Object.prototype\<close>. So a client that
  sends an empty \<open>versions\<close> object, having no version of any document, gets the data
  of a document with the id \<open>fred\<close>, but not of one with the id \<open>constructor\<close>: for
  that id the read finds the function every object inherits, which is not \<open>null\<close>, and
  the reply carries the id and the version of the document without its snapshot.
\<close>

lemma results_data_omitted_for_inherited_id:
  "getResultsData
     [\<lparr>r_id = ''constructor'', r_v = 1, r_type = JStr ''T'', r_data = JStr ''D''\<rparr>] (Some [])
   = [JObj [(''d'', JStr ''constructor''), (''v'', JNum 1), (''type'', JStr ''T'')]] \<and>
   getResultsData
     [\<lparr>r_id = ''fred'', r_v = 1, r_type = JStr ''T'', r_data = JStr ''D''\<rparr>] (Some [])
   = [JObj [(''d'', JStr ''fred''), (''v'', JNum 1), (''type'', JStr ''T''), (''data'', JStr ''D'')]] \<and>
   queryFetch_callback (new_agent ''agent1'')
     (JObj [(''a'', JStr ''qfetch''), (''id'', JNum 7), (''c'', JStr ''users''), (''q'', JObj []),
            (''vs'', JObj [])])
     (Some []) JNull
     [\<lparr>r_id = ''constructor'', r_v = 1, r_type = JStr ''T'', r_data = JStr ''D''\<rparr>] JUndefined
   = (new_agent ''agent1'')\<lparr>trace :=
       [Write (JObj [(''id'', JNum 7),
                     (''data'', JArr [JObj [(''d'', JStr ''constructor''), (''v'', JNum 1),
                                            (''type'', JStr ''T'')]]),
                     (''extra'', JUndefined), (''a'', JStr ''qfetch''), (''c'', JStr ''users'')])]\<rparr>"
  by (simp add: getResultsData_def no_version_def slot_def inherited_def object_prototype_names_def
      strict_eq_def set_if_def js_set_def queryFetch_callback_def sendQueryResults_def
      getResultsOpsRequest_def query_reply_def reply_def reply_message_def send_def emit_def
      new_agent_def)

text \<open>The request for operations. One turn of the loop of \<^verbatim>\<open>getResultsOpsRequest\<close>, by
  the own properties of \<open>versions\<close>:\<close>

lemma ops_request_step:
  "ops_request (r # rs) vs request =
     (case map_of vs (r_id r) of
        Some (Some from) \<Rightarrow>
          (if r_v r > from
           then ops_request rs vs
                  (Some (put (case request of None \<Rightarrow> [] | Some rq \<Rightarrow> rq) (r_id r) from))
           else ops_request rs vs request)
      | _ \<Rightarrow> ops_request rs vs request)"
  by (simp add: slot_def split: option.splits)

lemma ops_request_None:
  "ops_request rs vs acc = None \<longleftrightarrow>
     acc = None \<and> (\<forall>r\<in>set rs. \<forall>from. map_of vs (r_id r) = Some (Some from) \<longrightarrow> \<not> from < r_v r)"
  by (induction rs arbitrary: acc)
     (auto simp del: ops_request.simps(2) simp add: ops_request_step split: option.splits)

lemma ops_request_distinct:
  "ops_request rs vs acc = Some rq \<Longrightarrow>
   distinct (map fst (case acc of None \<Rightarrow> [] | Some a \<Rightarrow> a)) \<Longrightarrow> distinct (map fst rq)"
proof (induction rs arbitrary: acc)
  case Nil
  then show ?case by simp
next
  case (Cons r rs)
  then show ?case
    by (auto simp del: ops_request.simps(2) simp add: ops_request_step distinct_put
        split: option.splits if_splits)
qed

lemma ops_request_entries:
  "ops_request rs vs acc = Some rq \<Longrightarrow>
   map_of (case acc of None \<Rightarrow> [] | Some a \<Rightarrow> a) ''__proto__'' = None \<Longrightarrow>
   map_of rq k = Some from \<longleftrightarrow>
     (k \<noteq> ''__proto__'' \<and>
      (\<exists>r\<in>set rs. r_id r = k \<and> map_of vs k = Some (Some from) \<and> from < r_v r)) \<or>
     (\<not> (\<exists>r\<in>set rs. r_id r = k \<and> (\<exists>f. map_of vs k = Some (Some f) \<and> f < r_v r)) \<and>
      map_of (case acc of None \<Rightarrow> [] | Some a \<Rightarrow> a) k = Some from)"
proof (induction rs arbitrary: acc)
  case Nil
  then show ?case by auto
next
  case (Cons r rs)
  let ?acc = "case acc of None \<Rightarrow> [] | Some a \<Rightarrow> a"
  show ?case
  proof (cases "\<exists>f. map_of vs (r_id r) = Some (Some f) \<and> f < r_v r")
    case True
    then obtain f where f: "map_of vs (r_id r) = Some (Some f)" "f < r_v r" by blast
    with Cons.prems(1) have run:
      "ops_request rs vs (Some (put ?acc (r_id r) f)) = Some rq"
      by (simp del: ops_request.simps(2) add: ops_request_step)
    have inv: "map_of (case Some (put ?acc (r_id r) f) of None \<Rightarrow> [] | Some a \<Rightarrow> a) ''__proto__'' = None"
      using Cons.prems(2) by (simp add: map_of_put)
    note ih = Cons.IH [OF run inv]
    show ?thesis
    proof (cases "k = r_id r")
      case True
      show ?thesis
      proof (cases "k = ''__proto__''")
        case True
        with ih Cons.prems(2) \<open>k = r_id r\<close> f show ?thesis
          by (auto simp add: map_of_put)
      next
        case False
        with ih f \<open>k = r_id r\<close> show ?thesis
          by (cases "f = from") (auto simp add: map_of_put)
      qed
    next
      case False
      with ih show ?thesis
        by (simp add: map_of_put)
    qed
  next
    case False
    then have "ops_request (r # rs) vs acc = ops_request rs vs acc"
      by (auto simp del: ops_request.simps(2) simp add: ops_request_step split: option.splits)
    with Cons.prems have run: "ops_request rs vs acc = Some rq"
      by (simp del: ops_request.simps(2))
    note ih = Cons.IH [OF run Cons.prems(2)]
    from False ih show ?thesis
      by (cases "\<exists>f. map_of vs k = Some (Some f)") auto
  qed
qed

text \<open>
  What \<^verbatim>\<open>getResultsOpsRequest\<close> gives, for every list of results and every \<open>versions\<close>
  object. There is no request exactly when no result has a version above the number that
  \<open>versions\<close> has for its id. Otherwise the request has an entry for an id exactly when
  the id is not \<^verbatim>\<open>__proto__\<close> and a result with that id has a version above the number
  \<open>versions\<close> has for it, and the entry is that number. So for results none of which
  has the id \<^verbatim>\<open>__proto__\<close> the request is that of C7, and it is not empty.
\<close>

lemma ops_request_contents:
  "(getResultsOpsRequest results (Some vs) = None \<longleftrightarrow>
      (\<forall>r\<in>set results. \<forall>from. map_of vs (r_id r) = Some (Some from) \<longrightarrow> \<not> from < r_v r)) \<and>
   (\<forall>rq. getResultsOpsRequest results (Some vs) = Some rq \<longrightarrow>
      distinct (map fst rq) \<and>
      (\<forall>k from. map_of rq k = Some from \<longleftrightarrow>
         k \<noteq> ''__proto__'' \<and>
         (\<exists>r\<in>set results. r_id r = k \<and> map_of vs k = Some (Some from) \<and> from < r_v r)))"
proof -
  have none: "getResultsOpsRequest results (Some vs) = None \<longleftrightarrow>
      (\<forall>r\<in>set results. \<forall>from. map_of vs (r_id r) = Some (Some from) \<longrightarrow> \<not> from < r_v r)"
    by (simp add: getResultsOpsRequest_def ops_request_None)
  have some: "distinct (map fst rq) \<and>
      (\<forall>k from. map_of rq k = Some from \<longleftrightarrow>
         k \<noteq> ''__proto__'' \<and>
         (\<exists>r\<in>set results. r_id r = k \<and> map_of vs k = Some (Some from) \<and> from < r_v r))"
    if "getResultsOpsRequest results (Some vs) = Some rq" for rq
  proof -
    from that have run: "ops_request results vs None = Some rq"
      by (simp add: getResultsOpsRequest_def)
    have d: "distinct (map fst rq)"
      using ops_request_distinct [OF run] by simp
    have start: "map_of (case None :: (string \<times> int) list option of None \<Rightarrow> [] | Some a \<Rightarrow> a)
        ''__proto__'' = None"
      by simp
    have e: "map_of rq k = Some n \<longleftrightarrow>
         k \<noteq> ''__proto__'' \<and>
         (\<exists>r\<in>set results. r_id r = k \<and> map_of vs k = Some (Some n) \<and> n < r_v r)" for k n
      using ops_request_entries [OF run start, of k n] by simp
    from d e show ?thesis by blast
  qed
  show ?thesis
  proof (intro conjI allI impI)
    show "getResultsOpsRequest results (Some vs) = None \<longleftrightarrow>
      (\<forall>r\<in>set results. \<forall>from. map_of vs (r_id r) = Some (Some from) \<longrightarrow> \<not> from < r_v r)"
      by (rule none)
  next
    fix rq
    assume "getResultsOpsRequest results (Some vs) = Some rq"
    then show "distinct (map fst rq)"
      by (rule some [THEN conjunct1])
  next
    fix rq k n
    assume "getResultsOpsRequest results (Some vs) = Some rq"
    then show "map_of rq k = Some n \<longleftrightarrow>
         k \<noteq> ''__proto__'' \<and>
         (\<exists>r\<in>set results. r_id r = k \<and> map_of vs k = Some (Some n) \<and> n < r_v r)"
      by (rule some [THEN conjunct2, rule_format])
  qed
qed

lemma ops_request_not_empty:
  assumes "getResultsOpsRequest results (Some vs) = Some rq"
    and "\<forall>r\<in>set results. r_id r \<noteq> ''__proto__''"
  shows "rq \<noteq> []"
proof -
  from assms(1) have "getResultsOpsRequest results (Some vs) \<noteq> None" by simp
  then have "\<not> (\<forall>r\<in>set results. \<forall>from. map_of vs (r_id r) = Some (Some from) \<longrightarrow> \<not> from < r_v r)"
    by (simp add: ops_request_contents [THEN conjunct1])
  then obtain r n where r: "r \<in> set results" "map_of vs (r_id r) = Some (Some n)" "n < r_v r"
    by auto
  with assms(2) have "r_id r \<noteq> ''__proto__''" by simp
  with r have "map_of rq (r_id r) = Some n"
    using ops_request_contents [THEN conjunct2, rule_format, OF assms(1), THEN conjunct2,
      rule_format, of "r_id r" n]
    by blast
  then show ?thesis by auto
qed

text \<open>With a request \<^verbatim>\<open>_sendQueryResults\<close> calls the Backend and writes nothing, with
  none it replies at once.\<close>

lemma sendQueryResults_cases:
  "sendQueryResults ag req queryId collection versions results extra =
     (case getResultsOpsRequest results versions of
        None \<Rightarrow>
          (if closed ag then ag
           else ag\<lparr>trace := trace ag @
                  [Write (reply_message req JNull
                            (Some (query_reply queryId results versions extra)))]\<rparr>)
      | Some opsRequest \<Rightarrow> ag\<lparr>trace := trace ag @ [Backend (BGetOpsBulk collection opsRequest)]\<rparr>)"
  by (simp add: sendQueryResults_def reply_def send_def emit_def split: option.splits)

lemma sendOp_list_trace:
  "trace (foldl (\<lambda>a x. sendOp a c d x) ag xs) =
     trace ag @ (if closed ag then [] else map (\<lambda>x. Write (op_message c d x)) xs)"
  by (simp add: sendOp_list_fields)

lemma sendOp_list_closed:
  "closed (foldl (\<lambda>a x. sendOp a c d x) ag xs) = closed ag"
  by (simp add: sendOp_list_fields)

lemma send_ops_fold_fields:
  "trace (foldl (\<lambda>a (docId, ops). foldl (\<lambda>b x. sendOp b collection (JStr docId) x) a ops) ag ps) =
     trace ag @
       (if closed ag then []
        else concat (map (\<lambda>(docId, ops). map (\<lambda>x. Write (op_message collection (JStr docId) x)) ops)
                       ps)) \<and>
   closed (foldl (\<lambda>a (docId, ops). foldl (\<lambda>b x. sendOp b collection (JStr docId) x) a ops) ag ps) =
     closed ag"
proof (induction ps arbitrary: ag)
  case Nil
  show ?case by simp
next
  case (Cons p ps)
  obtain docId ops where p: "p = (docId, ops)" by (cases p)
  show ?case
    by (simp add: p Cons.IH sendOp_list_trace sendOp_list_closed)
qed

lemma send_ops_bulk_fields:
  "trace (send_ops_bulk ag collection opsResults) =
     trace ag @
       (if closed ag then []
        else concat (map (\<lambda>(docId, ops). map (\<lambda>x. Write (op_message collection (JStr docId) x)) ops)
                       (for_in opsResults))) \<and>
   closed (send_ops_bulk ag collection opsResults) = closed ag"
  unfolding send_ops_bulk_def by (rule send_ops_fold_fields)

text \<open>When the Backend answers the request for operations without an error, every
  operation it returned is sent as an \<open>op\<close> message, and after them the reply to the
  query. (\<^verbatim>\<open>_send\<close> writes nothing once the agent is closed.)\<close>

lemma ops_are_sent_before_query_reply:
  "\<not> truthy err \<Longrightarrow>
   trace (sendQueryResults_callback ag req queryId collection versions results extra err opsResults) =
     trace ag @
       (if closed ag then []
        else concat (map (\<lambda>(docId, ops). map (\<lambda>x. Write (op_message collection (JStr docId) x)) ops)
                       (for_in opsResults)) @
             [Write (reply_message req JNull
                       (Some (query_reply queryId results versions extra)))])"
  by (simp add: sendQueryResults_callback_def send_ops_bulk_fields [THEN conjunct1]
      send_ops_bulk_fields [THEN conjunct2])

text \<open>
  C7. The client sends the \<open>versions\<close> \<^verbatim>\<open>{"__proto__": 1}\<close> as JSON, which makes
  \<^verbatim>\<open>__proto__\<close> an own property, and the query has the document \<^verbatim>\<open>__proto__\<close> at
  version 3: the client is two operations behind. \<^verbatim>\<open>getResultsOpsRequest\<close> makes the
  request object and assigns \<^verbatim>\<open>request['__proto__'] = 1\<close>, which creates no property. The
  request is empty, but it is an object, so \<^verbatim>\<open>_sendQueryResults\<close> calls
  \<^verbatim>\<open>backend.getOpsBulk\<close> with it and does not reply yet. For the document \<open>fred\<close> the
  same versions give the request \<^verbatim>\<open>{fred: 1}\<close>.
\<close>

theorem ops_request_without_entry_is_sent:
  "getResultsOpsRequest
     [\<lparr>r_id = ''__proto__'', r_v = 3, r_type = JStr ''T'', r_data = JStr ''D''\<rparr>]
     (Some [(''__proto__'', Some 1)]) = Some [] \<and>
   queryFetch_callback (new_agent ''agent1'')
     (JObj [(''a'', JStr ''qfetch''), (''id'', JNum 7), (''c'', JStr ''users''), (''q'', JObj []),
            (''vs'', JObj [(''__proto__'', JNum 1)])])
     (Some [(''__proto__'', Some 1)]) JNull
     [\<lparr>r_id = ''__proto__'', r_v = 3, r_type = JStr ''T'', r_data = JStr ''D''\<rparr>] JUndefined
   = (new_agent ''agent1'')\<lparr>trace := [Backend (BGetOpsBulk (JStr ''users'') [])]\<rparr> \<and>
   getResultsOpsRequest
     [\<lparr>r_id = ''fred'', r_v = 3, r_type = JStr ''T'', r_data = JStr ''D''\<rparr>]
     (Some [(''fred'', Some 1)]) = Some [(''fred'', 1)]"
  by (simp add: getResultsOpsRequest_def slot_def put_def queryFetch_callback_def
      sendQueryResults_def emit_def new_agent_def)

section \<open>Installing a stream\<close>

text \<open>What one installation does, by the own properties of the two maps.\<close>

lemma subscribeToStream_open:
  "\<not> closed ag \<Longrightarrow>
   subscribeToStream ag c d s =
     (case map_of (subscribedDocs ag) c of
        Some streams \<Rightarrow>
          (case map_of streams d of
             Some p \<Rightarrow> Returns (storeStream (emit ag (DestroyStream p)) c streams d s)
           | None \<Rightarrow> if inherited d then Throws ag else Returns (storeStream ag c streams d s))
      | None \<Rightarrow>
          if inherited c then RuntimeObject ag
          else if inherited d then Throws (ag\<lparr>subscribedDocs := put (subscribedDocs ag) c []\<rparr>)
          else Returns (storeStream (ag\<lparr>subscribedDocs := put (subscribedDocs ag) c []\<rparr>) c [] d s))"
  by (simp add: subscribeToStream_def install_def slot_def split: option.splits)

lemma not_inherited_proto: "\<not> inherited k \<Longrightarrow> k \<noteq> ''__proto__''"
  using inherited_proto by auto

lemma storeStream_fields:
  "trace (storeStream ag c streams d s) = trace ag"
  "closed (storeStream ag c streams d s) = closed ag"
  by (simp_all add: storeStream_def)

lemma stored_emit: "stored_stream (emit ag e) c d = stored_stream ag c d"
  by (simp add: stored_stream_def)

lemma stored_storeStream:
  assumes "map_of (subscribedDocs ag) c = Some streams"
    and "map_of streams d \<noteq> None \<or> \<not> inherited d"
  shows "stored_stream (storeStream ag c streams d s) c' d' =
           (if c' = c \<and> d' = d then Some s else stored_stream ag c' d')"
proof -
  have inner: "map_of (put streams d s) y = (if y = d then Some s else map_of streams y)" for y
    using assms(2) not_inherited_proto [of d] by (auto simp add: map_of_put)
  have outer: "map_of (put (subscribedDocs ag) c (put streams d s)) x =
      (if x = c then Some (put streams d s) else map_of (subscribedDocs ag) x)" for x
    using assms(1) by (auto simp add: map_of_put)
  show ?thesis
    using assms(1) by (simp add: stored_stream_def storeStream_def inner outer)
qed

lemma stored_new_collection:
  assumes "map_of (subscribedDocs ag) c = None"
  shows "stored_stream (ag\<lparr>subscribedDocs := put (subscribedDocs ag) c []\<rparr>) c' d' =
           stored_stream ag c' d'"
  using assms by (simp add: stored_stream_def map_of_put)

text \<open>
  The stream stored for each pair after an installation: the new one for its pair when
  the installation has returned on an open agent, and the one stored before otherwise.
\<close>

lemma stored_after_install:
  "stored_stream (state_of (subscribeToStream ag c d s)) c' d' =
     (if \<not> closed ag \<and> c' = c \<and> d' = d \<and> (\<exists>ag'. subscribeToStream ag c d s = Returns ag')
      then Some s else stored_stream ag c' d')"
proof (cases "closed ag")
  case True
  then show ?thesis by (simp add: subscribeToStream_def stored_emit)
next
  case False
  show ?thesis
  proof (cases "map_of (subscribedDocs ag) c")
    case None
    let ?ag1 = "ag\<lparr>subscribedDocs := put (subscribedDocs ag) c []\<rparr>"
    show ?thesis
    proof (cases "inherited c \<or> inherited d")
      case True
      with False None show ?thesis
        by (auto simp add: subscribeToStream_open stored_new_collection)
    next
      case no: False
      then have c: "c \<noteq> ''__proto__''" by (simp add: not_inherited_proto)
      have m: "map_of (subscribedDocs ?ag1) c = Some []"
        using c by (simp add: map_of_put)
      have "stored_stream (storeStream ?ag1 c [] d s) c' d' =
          (if c' = c \<and> d' = d then Some s else stored_stream ?ag1 c' d')"
        using no by (intro stored_storeStream [OF m]) simp
      with False None no show ?thesis
        by (simp add: subscribeToStream_open stored_new_collection [OF None])
    qed
  next
    case (Some streams)
    show ?thesis
    proof (cases "map_of streams d")
      case None
      show ?thesis
      proof (cases "inherited d")
        case True
        with False Some None show ?thesis
          by (simp add: subscribeToStream_open)
      next
        case no: False
        have "stored_stream (storeStream ag c streams d s) c' d' =
            (if c' = c \<and> d' = d then Some s else stored_stream ag c' d')"
          using no by (intro stored_storeStream [OF Some]) simp
        with False Some None no show ?thesis
          by (simp add: subscribeToStream_open)
      qed
    next
      case p: (Some p)
      have m: "map_of (subscribedDocs (emit ag (DestroyStream p))) c = Some streams"
        using Some by simp
      have "stored_stream (storeStream (emit ag (DestroyStream p)) c streams d s) c' d' =
          (if c' = c \<and> d' = d then Some s else stored_stream (emit ag (DestroyStream p)) c' d')"
        using p by (intro stored_storeStream [OF m]) simp
      with False Some p show ?thesis
        by (simp add: subscribeToStream_open stored_emit)
    qed
  qed
qed

text \<open>The events of an installation: the incoming stream is destroyed on a closed agent,
  the stream stored for the pair on an open one, and nothing else happens.\<close>

lemma trace_after_install:
  "trace (state_of (subscribeToStream ag c d s)) =
     trace ag @
       (if closed ag then [DestroyStream s]
        else (case stored_stream ag c d of None \<Rightarrow> [] | Some p \<Rightarrow> [DestroyStream p]))"
proof (cases "closed ag")
  case True
  then show ?thesis by (simp add: subscribeToStream_def)
next
  case False
  then show ?thesis
    by (simp add: subscribeToStream_open stored_stream_def storeStream_fields
        split: option.splits)
qed

lemma closed_after_install:
  "closed (state_of (subscribeToStream ag c d s)) = closed ag"
proof (cases "closed ag")
  case True
  then show ?thesis by (simp add: subscribeToStream_def)
next
  case False
  then show ?thesis
    by (simp add: subscribeToStream_open storeStream_fields split: option.splits)
qed

text \<open>An installation on an open agent returns unless it meets a name of
  \<^verbatim>\<open>Object.prototype\<close> that is not stored.\<close>

lemma install_returns:
  assumes "\<not> closed ag"
    and "stored_stream ag c d \<noteq> None \<or> (\<not> inherited c \<and> \<not> inherited d)"
  shows "\<exists>ag'. subscribeToStream ag c d s = Returns ag'"
  using assms
  by (auto simp add: subscribeToStream_open stored_stream_def split: option.splits)

text \<open>With the document id \<open>constructor\<close> it throws, and the stream it was given is
  neither stored nor destroyed; under the collection \<open>constructor\<close> the stream goes to
  an object of the runtime.\<close>

lemma install_inherited_names:
  "subscribeToStream (new_agent ''agent1'') ''users'' ''constructor'' 1 =
     Throws ((new_agent ''agent1'')\<lparr>subscribedDocs := [(''users'', [])]\<rparr>) \<and>
   subscribeToStream (new_agent ''agent1'') ''constructor'' ''fred'' 1 =
     RuntimeObject (new_agent ''agent1'')"
  by (simp add: subscribeToStream_def install_def slot_def inherited_def
      object_prototype_names_def put_def new_agent_def)

text \<open>A stream that is stored stays stored until it is destroyed.\<close>

lemma kept_or_destroyed_step:
  assumes "stored_stream ag c d = Some s \<or> DestroyStream s \<in> set (trace ag)"
  shows "stored_stream (state_of (subscribeToStream ag c2 d2 s2)) c d = Some s \<or>
         DestroyStream s \<in> set (trace (state_of (subscribeToStream ag c2 d2 s2)))"
  using assms by (auto simp add: stored_after_install trace_after_install)

lemma install_all_step:
  "state_of (install_all ag ((c, d, s) # xs)) =
     (case subscribeToStream ag c d s of
        RuntimeObject ag' \<Rightarrow> ag'
      | r \<Rightarrow> state_of (install_all (state_of r) xs))"
  by (simp split: outcome.splits)

lemma kept_or_destroyed_all:
  "stored_stream ag c d = Some s \<or> DestroyStream s \<in> set (trace ag) \<Longrightarrow>
   stored_stream (state_of (install_all ag xs)) c d = Some s \<or>
   DestroyStream s \<in> set (trace (state_of (install_all ag xs)))"
proof (induction xs arbitrary: ag)
  case Nil
  then show ?case by simp
next
  case (Cons x xs)
  obtain c2 d2 s2 where x: "x = (c2, d2, s2)" by (cases x)
  note step = kept_or_destroyed_step [OF Cons.prems, of c2 d2 s2]
  show ?case
  proof (cases "subscribeToStream ag c2 d2 s2")
    case (Returns ag')
    with step Cons.IH [of ag'] show ?thesis by (simp add: x)
  next
    case (Throws ag')
    with step Cons.IH [of ag'] show ?thesis by (simp add: x)
  next
    case (RuntimeObject ag')
    with step show ?thesis by (simp add: x)
  qed
qed

text \<open>Each of the two maps has a property once, before and after.\<close>

lemma docs_wf_storeStream:
  assumes "docs_wf ag" and "distinct (map fst streams)"
  shows "docs_wf (storeStream ag c streams d s)"
  using assms by (simp add: docs_wf_def storeStream_def distinct_put list_all_put)

lemma docs_wf_new_collection:
  "docs_wf ag \<Longrightarrow> docs_wf (ag\<lparr>subscribedDocs := put (subscribedDocs ag) c []\<rparr>)"
  by (simp add: docs_wf_def distinct_put list_all_put)

lemma docs_wf_inner:
  assumes "docs_wf ag" and "map_of (subscribedDocs ag) c = Some streams"
  shows "distinct (map fst streams)"
proof -
  from assms(2) have "(c, streams) \<in> set (subscribedDocs ag)" by (rule map_of_SomeD)
  with assms(1) show ?thesis
    by (auto simp add: docs_wf_def list_all_iff)
qed

lemma docs_wf_emit: "docs_wf (emit ag e) = docs_wf ag"
  by (simp add: docs_wf_def)

lemma docs_wf_subscribeToStream:
  assumes "docs_wf ag"
  shows "docs_wf (state_of (subscribeToStream ag c d s))"
proof (cases "closed ag")
  case True
  with assms show ?thesis by (simp add: subscribeToStream_def docs_wf_emit)
next
  case False
  show ?thesis
  proof (cases "map_of (subscribedDocs ag) c")
    case None
    with False assms show ?thesis
      by (simp add: subscribeToStream_open docs_wf_new_collection docs_wf_storeStream)
  next
    case (Some streams)
    note inner = docs_wf_inner [OF assms Some]
    with False Some assms show ?thesis
      by (simp add: subscribeToStream_open docs_wf_storeStream docs_wf_emit split: option.splits)
  qed
qed

lemma docs_wf_install_all: "docs_wf ag \<Longrightarrow> docs_wf (state_of (install_all ag xs))"
proof (induction xs arbitrary: ag)
  case Nil
  then show ?case by simp
next
  case (Cons x xs)
  obtain c2 d2 s2 where x: "x = (c2, d2, s2)" by (cases x)
  note step = docs_wf_subscribeToStream [OF Cons.prems, of c2 d2 s2]
  show ?case
  proof (cases "subscribeToStream ag c2 d2 s2")
    case (Returns ag')
    with step Cons.IH [of ag'] show ?thesis by (simp add: x)
  next
    case (Throws ag')
    with step Cons.IH [of ag'] show ?thesis by (simp add: x)
  next
    case (RuntimeObject ag')
    with step show ?thesis by (simp add: x)
  qed
qed

lemma filter_key_distinct:
  "distinct (map fst al) \<Longrightarrow>
   map snd (filter (\<lambda>(k', v). k' = k) al) = (case map_of al k of None \<Rightarrow> [] | Some v \<Rightarrow> [v])"
proof (induction al)
  case Nil
  then show ?case by simp
next
  case (Cons p al)
  obtain k1 v1 where p: "p = (k1, v1)" by (cases p)
  show ?case
  proof (cases "k1 = k")
    case True
    with Cons.prems p have "k \<notin> fst ` set al" by simp
    then have "filter (\<lambda>(k', v). k' = k) al = []"
      by (force simp add: filter_empty_conv)
    with True p show ?thesis by simp
  next
    case False
    with Cons p show ?thesis by simp
  qed
qed

lemma registered_wf:
  assumes "docs_wf ag"
  shows "registered ag c d = (case stored_stream ag c d of None \<Rightarrow> [] | Some s \<Rightarrow> [s])"
proof -
  have outer: "distinct (map fst al) \<Longrightarrow> list_all (\<lambda>(collection, docs). distinct (map fst docs)) al \<Longrightarrow>
      concat (map (\<lambda>(c', docs). map snd (filter (\<lambda>(d', s). c' = c \<and> d' = d) docs)) al) =
      (case map_of al c of None \<Rightarrow> []
       | Some docs \<Rightarrow> (case map_of docs d of None \<Rightarrow> [] | Some s \<Rightarrow> [s]))"
    for al :: "(string \<times> (string \<times> stream) list) list"
  proof (induction al)
    case Nil
    then show ?case by simp
  next
    case (Cons p al)
    obtain c1 docs1 where p: "p = (c1, docs1)" by (cases p)
    show ?case
    proof (cases "c1 = c")
      case True
      with Cons.prems p have notin: "c \<notin> fst ` set al" by simp
      have rest: "concat (map (\<lambda>(c', docs). map snd (filter (\<lambda>(d', s). c' = c \<and> d' = d) docs)) al) = []"
        using notin by (induction al) auto
      have "distinct (map fst docs1)"
        using Cons.prems p by simp
      then have "map snd (filter (\<lambda>(d', s). d' = d) docs1) =
          (case map_of docs1 d of None \<Rightarrow> [] | Some s \<Rightarrow> [s])"
        by (rule filter_key_distinct)
      with True p rest show ?thesis by simp
    next
      case False
      with Cons p show ?thesis by simp
    qed
  qed
  from assms have "distinct (map fst (subscribedDocs ag))"
    and "list_all (\<lambda>(collection, docs). distinct (map fst docs)) (subscribedDocs ag)"
    by (simp_all add: docs_wf_def)
  then have "concat (map (\<lambda>(c', docs). map snd (filter (\<lambda>(d', s). c' = c \<and> d' = d) docs))
               (subscribedDocs ag)) =
      (case map_of (subscribedDocs ag) c of None \<Rightarrow> []
       | Some docs \<Rightarrow> (case map_of docs d of None \<Rightarrow> [] | Some s \<Rightarrow> [s]))"
    by (rule outer)
  then show ?thesis
    by (simp add: registered_def stored_stream_def split: option.splits)
qed

text \<open>
  C2. Installing a stream on a closed agent destroys the stream and stores nothing. On
  an open agent that has a stream stored for the collection and the document, that stream
  is destroyed while the maps are still as they were, then the new stream is stored in
  its place: it is the stream stored for the pair afterwards, and every other pair has
  the stream it had. On an open agent that has none stored for the pair, and when neither
  name is a property name of \<^verbatim>\<open>Object.prototype\<close>, the new stream is stored and nothing
  is destroyed. Over any sequence of installations (followed as far as the code stays with
  the maps of the agent) \<open>subscribedDocs\<close> keeps one entry at most for a pair, the one
  stored for it, and a stream that was stored for the pair is still stored for it or has
  been destroyed.
\<close>

theorem one_stream_per_document:
  "(closed ag \<longrightarrow>
      subscribeToStream ag c d s = Returns (ag\<lparr>trace := trace ag @ [DestroyStream s]\<rparr>)) \<and>
   (\<not> closed ag \<and> stored_stream ag c d = Some p \<longrightarrow>
      (\<exists>streams. map_of (subscribedDocs ag) c = Some streams \<and>
         subscribeToStream ag c d s =
           Returns (storeStream (ag\<lparr>trace := trace ag @ [DestroyStream p]\<rparr>) c streams d s)) \<and>
      trace (state_of (subscribeToStream ag c d s)) = trace ag @ [DestroyStream p] \<and>
      (\<forall>c' d'. stored_stream (state_of (subscribeToStream ag c d s)) c' d' =
                (if c' = c \<and> d' = d then Some s else stored_stream ag c' d'))) \<and>
   (\<not> closed ag \<and> stored_stream ag c d = None \<and> \<not> inherited c \<and> \<not> inherited d \<longrightarrow>
      (\<exists>ag'. subscribeToStream ag c d s = Returns ag') \<and>
      trace (state_of (subscribeToStream ag c d s)) = trace ag \<and>
      (\<forall>c' d'. stored_stream (state_of (subscribeToStream ag c d s)) c' d' =
                (if c' = c \<and> d' = d then Some s else stored_stream ag c' d'))) \<and>
   (docs_wf ag \<longrightarrow>
      docs_wf (state_of (install_all ag xs)) \<and>
      length (registered (state_of (install_all ag xs)) c d) \<le> 1 \<and>
      registered (state_of (install_all ag xs)) c d =
        (case stored_stream (state_of (install_all ag xs)) c d of None \<Rightarrow> [] | Some r \<Rightarrow> [r])) \<and>
   (\<forall>s'. stored_stream ag c d = Some s' \<or> DestroyStream s' \<in> set (trace ag) \<longrightarrow>
      stored_stream (state_of (install_all ag xs)) c d = Some s' \<or>
      DestroyStream s' \<in> set (trace (state_of (install_all ag xs))))"
proof -
  have shut: "closed ag \<longrightarrow>
      subscribeToStream ag c d s = Returns (ag\<lparr>trace := trace ag @ [DestroyStream s]\<rparr>)"
    by (simp add: subscribeToStream_def emit_def)
  have prior: "\<not> closed ag \<and> stored_stream ag c d = Some p \<longrightarrow>
      (\<exists>streams. map_of (subscribedDocs ag) c = Some streams \<and>
         subscribeToStream ag c d s =
           Returns (storeStream (ag\<lparr>trace := trace ag @ [DestroyStream p]\<rparr>) c streams d s)) \<and>
      trace (state_of (subscribeToStream ag c d s)) = trace ag @ [DestroyStream p] \<and>
      (\<forall>c' d'. stored_stream (state_of (subscribeToStream ag c d s)) c' d' =
                (if c' = c \<and> d' = d then Some s else stored_stream ag c' d'))"
  proof (intro impI conjI allI)
    assume a: "\<not> closed ag \<and> stored_stream ag c d = Some p"
    then obtain streams where m: "map_of (subscribedDocs ag) c = Some streams"
      and p: "map_of streams d = Some p"
      by (auto simp add: stored_stream_def split: option.splits)
    with a show "\<exists>streams. map_of (subscribedDocs ag) c = Some streams \<and>
         subscribeToStream ag c d s =
           Returns (storeStream (ag\<lparr>trace := trace ag @ [DestroyStream p]\<rparr>) c streams d s)"
      by (simp add: subscribeToStream_open emit_def)
    from a show "trace (state_of (subscribeToStream ag c d s)) = trace ag @ [DestroyStream p]"
      by (simp add: trace_after_install)
    fix c' d'
    from a have "\<exists>ag'. subscribeToStream ag c d s = Returns ag'"
      by (intro install_returns) simp_all
    with a show "stored_stream (state_of (subscribeToStream ag c d s)) c' d' =
                (if c' = c \<and> d' = d then Some s else stored_stream ag c' d')"
      by (simp add: stored_after_install)
  qed
  have fresh: "\<not> closed ag \<and> stored_stream ag c d = None \<and> \<not> inherited c \<and> \<not> inherited d \<longrightarrow>
      (\<exists>ag'. subscribeToStream ag c d s = Returns ag') \<and>
      trace (state_of (subscribeToStream ag c d s)) = trace ag \<and>
      (\<forall>c' d'. stored_stream (state_of (subscribeToStream ag c d s)) c' d' =
                (if c' = c \<and> d' = d then Some s else stored_stream ag c' d'))"
  proof (intro impI conjI allI)
    assume a: "\<not> closed ag \<and> stored_stream ag c d = None \<and> \<not> inherited c \<and> \<not> inherited d"
    then show r: "\<exists>ag'. subscribeToStream ag c d s = Returns ag'"
      by (intro install_returns) simp_all
    from a show "trace (state_of (subscribeToStream ag c d s)) = trace ag"
      by (simp add: trace_after_install)
    fix c' d'
    from a r show "stored_stream (state_of (subscribeToStream ag c d s)) c' d' =
                (if c' = c \<and> d' = d then Some s else stored_stream ag c' d')"
      by (simp add: stored_after_install)
  qed
  have one: "docs_wf ag \<longrightarrow>
      docs_wf (state_of (install_all ag xs)) \<and>
      length (registered (state_of (install_all ag xs)) c d) \<le> 1 \<and>
      registered (state_of (install_all ag xs)) c d =
        (case stored_stream (state_of (install_all ag xs)) c d of None \<Rightarrow> [] | Some r \<Rightarrow> [r])"
    by (simp add: docs_wf_install_all registered_wf split: option.splits)
  have kept: "\<forall>s'. stored_stream ag c d = Some s' \<or> DestroyStream s' \<in> set (trace ag) \<longrightarrow>
      stored_stream (state_of (install_all ag xs)) c d = Some s' \<or>
      DestroyStream s' \<in> set (trace (state_of (install_all ag xs)))"
    by (intro allI impI kept_or_destroyed_all)
  from shut prior fresh one kept show ?thesis by blast
qed

theorem one_stream_per_document_witness:
  "subscribeToStream ((new_agent ''agent1'')\<lparr>closed := True\<rparr>) ''users'' ''fred'' 2 =
     Returns ((new_agent ''agent1'')\<lparr>closed := True, trace := [DestroyStream 2]\<rparr>) \<and>
   trace (state_of (subscribeToStream
      ((new_agent ''agent1'')\<lparr>subscribedDocs := [(''users'', [(''fred'', 1)])]\<rparr>)
      ''users'' ''fred'' 2)) = [DestroyStream 1] \<and>
   stored_stream (state_of (subscribeToStream
      ((new_agent ''agent1'')\<lparr>subscribedDocs := [(''users'', [(''fred'', 1)])]\<rparr>)
      ''users'' ''fred'' 2)) ''users'' ''fred'' = Some 2 \<and>
   trace (state_of (subscribeToStream (new_agent ''agent1'') ''users'' ''fred'' 1)) = [] \<and>
   stored_stream (state_of (subscribeToStream (new_agent ''agent1'') ''users'' ''fred'' 1))
      ''users'' ''fred'' = Some 1 \<and>
   length (registered (state_of (install_all (new_agent ''agent1'')
             [(''users'', ''fred'', 1), (''users'', ''constructor'', 9), (''users'', ''fred'', 2)]))
           ''users'' ''fred'') \<le> 1 \<and>
   (stored_stream (state_of (install_all
        ((new_agent ''agent1'')\<lparr>subscribedDocs := [(''users'', [(''fred'', 1)])]\<rparr>)
        [(''users'', ''fred'', 2)])) ''users'' ''fred'' = Some 1 \<or>
    DestroyStream 1 \<in> set (trace (state_of (install_all
        ((new_agent ''agent1'')\<lparr>subscribedDocs := [(''users'', [(''fred'', 1)])]\<rparr>)
        [(''users'', ''fred'', 2)]))))"
proof -
  let ?ag1 = "(new_agent ''agent1'')\<lparr>subscribedDocs := [(''users'', [(''fred'', 1)])]\<rparr>"
  have shut: "subscribeToStream ((new_agent ''agent1'')\<lparr>closed := True\<rparr>) ''users'' ''fred'' 2 =
     Returns ((new_agent ''agent1'')\<lparr>closed := True, trace := [DestroyStream 2]\<rparr>)"
    using one_stream_per_document [where ag = "(new_agent ''agent1'')\<lparr>closed := True\<rparr>"
        and c = "''users''" and d = "''fred''" and s = 2 and xs = "[]"]
    by (simp add: new_agent_def)
  have has: "\<not> closed ?ag1 \<and> stored_stream ?ag1 ''users'' ''fred'' = Some 1"
    and start1: "trace ?ag1 = []"
    by (simp_all add: new_agent_def stored_stream_def)
  note prior = one_stream_per_document [where ag = ?ag1 and c = "''users''" and d = "''fred''"
      and s = 2 and p = 1 and xs = "[(''users'', ''fred'', 2)]",
      THEN conjunct2, THEN conjunct1, rule_format, OF has]
  have tr: "trace (state_of (subscribeToStream ?ag1 ''users'' ''fred'' 2)) = [DestroyStream 1]"
    using prior [THEN conjunct2, THEN conjunct1] by (simp add: new_agent_def)
  have st: "stored_stream (state_of (subscribeToStream ?ag1 ''users'' ''fred'' 2))
      ''users'' ''fred'' = Some 2"
    using prior [THEN conjunct2, THEN conjunct2, rule_format, of "''users''" "''fred''"] by simp
  have none: "\<not> closed (new_agent ''agent1'') \<and>
      stored_stream (new_agent ''agent1'') ''users'' ''fred'' = None \<and>
      \<not> inherited ''users'' \<and> \<not> inherited ''fred''"
    and start0: "trace (new_agent ''agent1'') = []"
    and wf: "docs_wf (new_agent ''agent1'')"
    by (simp_all add: new_agent_def stored_stream_def inherited_def object_prototype_names_def
        docs_wf_def)
  note fresh = one_stream_per_document [where ag = "new_agent ''agent1''" and c = "''users''"
      and d = "''fred''" and s = 1
      and xs = "[(''users'', ''fred'', 1), (''users'', ''constructor'', 9), (''users'', ''fred'', 2)]",
      THEN conjunct2, THEN conjunct2]
  note fresh1 = fresh [THEN conjunct1, rule_format, OF none]
  have tr0: "trace (state_of (subscribeToStream (new_agent ''agent1'') ''users'' ''fred'' 1)) = []"
    using fresh1 [THEN conjunct2, THEN conjunct1] by (simp add: new_agent_def)
  have st0: "stored_stream (state_of (subscribeToStream (new_agent ''agent1'') ''users'' ''fred'' 1))
      ''users'' ''fred'' = Some 1"
    using fresh1 [THEN conjunct2, THEN conjunct2, rule_format, of "''users''" "''fred''"] by simp
  have one: "length (registered (state_of (install_all (new_agent ''agent1'')
             [(''users'', ''fred'', 1), (''users'', ''constructor'', 9), (''users'', ''fred'', 2)]))
           ''users'' ''fred'') \<le> 1"
    using fresh [THEN conjunct2, THEN conjunct1, rule_format, OF wf]
    by (rule conjunct2 [THEN conjunct1])
  have kept: "stored_stream (state_of (install_all ?ag1 [(''users'', ''fred'', 2)]))
        ''users'' ''fred'' = Some 1 \<or>
      DestroyStream 1 \<in> set (trace (state_of (install_all ?ag1 [(''users'', ''fred'', 2)])))"
    using has
    by (intro one_stream_per_document [where ag = ?ag1 and c = "''users''" and d = "''fred''"
      and s = 2 and p = 1 and xs = "[(''users'', ''fred'', 2)]",
      THEN conjunct2, THEN conjunct2, THEN conjunct2, THEN conjunct2, rule_format]) simp
  from shut tr st tr0 st0 one kept show ?thesis by blast
qed

section \<open>Bulk subscribe: the sweep after a failure\<close>

lemma written_append: "written (xs @ ys) = written xs @ written ys"
  by (induction xs rule: written.induct) simp_all

lemma written_destroys: "written (map DestroyStream ds) = []"
  by (induction ds) simp_all

text \<open>
  The sweep of the ids of one collection returns when each id is stored or is not a
  name of \<^verbatim>\<open>Object.prototype\<close>, and it has destroyed the streams stored for the ids, in
  their order. It throws at the first id that is such a name and is not stored.
\<close>

lemma sweep_ids_returns:
  "\<forall>d\<in>set ids. map_of docs d \<noteq> None \<or> \<not> inherited d \<Longrightarrow>
   sweep_ids ag docs ids =
     Returns (ag\<lparr>trace := trace ag @ map DestroyStream (List.map_filter (map_of docs) ids)\<rparr>)"
proof (induction ids arbitrary: ag)
  case Nil
  show ?case by (simp add: List.map_filter_simps)
next
  case (Cons d ids)
  from Cons.prems have rest: "\<forall>d\<in>set ids. map_of docs d \<noteq> None \<or> \<not> inherited d"
    and here: "map_of docs d \<noteq> None \<or> \<not> inherited d"
    by simp_all
  show ?case
  proof (cases "map_of docs d")
    case None
    with here have "slot docs d = Absent" by (simp add: slot_def)
    with None show ?thesis
      by (simp add: Cons.IH [OF rest] List.map_filter_simps)
  next
    case (Some s)
    then have "slot docs d = Own s" by (simp add: slot_def)
    with Some show ?thesis
      by (simp add: Cons.IH [OF rest] List.map_filter_simps emit_def)
  qed
qed

lemma sweep_ids_throws:
  "d \<in> set ids \<Longrightarrow> map_of docs d = None \<Longrightarrow> inherited d \<Longrightarrow>
   \<exists>ag'. sweep_ids ag docs ids = Throws ag'"
proof (induction ids arbitrary: ag)
  case Nil
  then show ?case by simp
next
  case (Cons x ids)
  show ?case
  proof (cases "slot docs x")
    case (Own s)
    with Cons.prems have "d \<in> set ids" by (auto simp add: slot_def)
    from Cons.IH [OF this Cons.prems(2,3)] Own show ?thesis by simp
  next
    case Inherited
    then show ?thesis by simp
  next
    case Absent
    with Cons.prems have "d \<in> set ids" by (auto simp add: slot_def)
    from Cons.IH [OF this Cons.prems(2,3)] Absent show ?thesis by simp
  qed
qed

text \<open>
  The whole sweep returns when it meets no name of \<^verbatim>\<open>Object.prototype\<close> that is not
  stored, among the collections of the request and among the ids the request names under
  a collection that has documents. Then it has destroyed, for every collection of the
  request and every id the request names under it, the stream stored for the pair, and
  nothing else.
\<close>

lemma sweep_collections_returns:
  assumes "\<forall>c\<in>set cs. map_of (subscribedDocs ag) c \<noteq> None \<or> \<not> inherited c"
    and "\<forall>c\<in>set cs. \<forall>docs. map_of (subscribedDocs ag) c = Some docs \<longrightarrow>
           (\<forall>d\<in>set (js_keys (js_get request c)). map_of docs d \<noteq> None \<or> \<not> inherited d)"
  shows "sweep_collections ag request cs =
     Returns (ag\<lparr>trace := trace ag @ map DestroyStream
        (concat (map (\<lambda>c. List.map_filter (stored_stream ag c) (js_keys (js_get request c))) cs))\<rparr>)"
  using assms
proof (induction cs arbitrary: ag)
  case Nil
  show ?case by simp
next
  case (Cons c cs)
  show ?case
  proof (cases "map_of (subscribedDocs ag) c")
    case None
    with Cons.prems(1) have sl: "slot (subscribedDocs ag) c = Absent"
      by (simp add: slot_def)
    from None have "stored_stream ag c = (\<lambda>d. None)"
      by (simp add: stored_stream_def fun_eq_iff)
    then have no: "List.map_filter (stored_stream ag c) (js_keys (js_get request c)) = []"
      by (simp add: List.map_filter_def)
    have "sweep_collections ag request cs =
        Returns (ag\<lparr>trace := trace ag @ map DestroyStream
          (concat (map (\<lambda>c. List.map_filter (stored_stream ag c) (js_keys (js_get request c))) cs))\<rparr>)"
      using Cons.prems by (intro Cons.IH) simp_all
    with sl no show ?thesis by simp
  next
    case (Some docs)
    then have sl: "slot (subscribedDocs ag) c = Own docs" by (simp add: slot_def)
    let ?ds = "List.map_filter (map_of docs) (js_keys (js_get request c))"
    let ?ag = "ag\<lparr>trace := trace ag @ map DestroyStream ?ds\<rparr>"
    have ids: "sweep_ids ag docs (js_keys (js_get request c)) = Returns ?ag"
      using Cons.prems(2) Some by (intro sweep_ids_returns) simp
    have here: "stored_stream ag c = map_of docs"
      using Some by (simp add: stored_stream_def fun_eq_iff)
    have same: "stored_stream ?ag = stored_stream ag"
      by (simp add: stored_stream_def fun_eq_iff)
    have "sweep_collections ?ag request cs =
        Returns (?ag\<lparr>trace := trace ?ag @ map DestroyStream
          (concat (map (\<lambda>c. List.map_filter (stored_stream ?ag c) (js_keys (js_get request c))) cs))\<rparr>)"
      using Cons.prems by (intro Cons.IH) simp_all
    with sl ids show ?thesis
      by (simp add: here same)
  qed
qed

lemma set_map_filter_Some:
  "set (List.map_filter f xs) = {y. \<exists>x\<in>set xs. f x = Some y}"
  by (induction xs) (auto simp add: List.map_filter_simps split: option.splits)

text \<open>
  So the first callback of a bulk subscribe that reports an error, when the sweep meets
  no such name, does what C3 says: the agent destroys the streams stored for the pairs
  the request names, and after these it replies to the request with this error.
  (\<^verbatim>\<open>_send\<close> writes nothing once the agent is closed.)
\<close>

lemma bulk_failure_sweeps_then_replies:
  assumes "truthy err" and "\<not> bs_called (snd st)"
    and "\<forall>c\<in>set (js_keys (js_get req ''s'')).
           map_of (subscribedDocs (fst st)) c \<noteq> None \<or> \<not> inherited c"
    and "\<forall>c\<in>set (js_keys (js_get req ''s'')). \<forall>docs.
           map_of (subscribedDocs (fst st)) c = Some docs \<longrightarrow>
           (\<forall>d\<in>set (js_keys (js_get (js_get req ''s'') c)). map_of docs d \<noteq> None \<or> \<not> inherited d)"
  shows "\<exists>ds st'. bulk_callback st req collection (err, streams, snapshotMap) = Returns st' \<and>
           bs_called (snd st') \<and>
           trace (fst st') =
             trace (fst st) @ map DestroyStream ds @
               (if closed (fst st) then [] else [Write (reply_message req err None)]) \<and>
           set ds = {s. \<exists>c\<in>set (js_keys (js_get req ''s'')).
                        \<exists>d\<in>set (js_keys (js_get (js_get req ''s'') c)).
                          stored_stream (fst st) c d = Some s}"
proof -
  let ?request = "js_get req ''s''"
  let ?ds = "concat (map (\<lambda>c. List.map_filter (stored_stream (fst st) c) (js_keys (js_get ?request c)))
                       (js_keys ?request))"
  let ?ag = "(fst st)\<lparr>trace := trace (fst st) @ map DestroyStream ?ds\<rparr>"
  have sw: "sweep (fst st) ?request = Returns ?ag"
    unfolding sweep_def using assms(3,4) by (rule sweep_collections_returns)
  have cb: "bulk_callback st req collection (err, streams, snapshotMap) =
      Returns (reply ?ag req err None,
               (snd st)\<lparr>bs_pending := bs_pending (snd st) - 1, bs_called := True\<rparr>)"
    using assms(1,2) by (simp add: bulk_callback_def bulk_report_def bulk_finish_def bulk_final_def
        Let_def sw)
  have dset: "set ?ds = {s. \<exists>c\<in>set (js_keys ?request). \<exists>d\<in>set (js_keys (js_get ?request c)).
                        stored_stream (fst st) c d = Some s}"
    by (auto simp add: set_map_filter_Some)
  show ?thesis
    using dset
    by (intro exI [of _ ?ds]
          exI [of _ "(reply ?ag req err None,
                      (snd st)\<lparr>bs_pending := bs_pending (snd st) - 1, bs_called := True\<rparr>)"])
       (simp add: cb)
qed

text \<open>Once the callback of \<^verbatim>\<open>forEachOf\<close> has been called and has returned, a later
  callback of the Backend writes nothing.\<close>

lemma install_streams_written:
  "written (trace (fst (state_of (install_streams ag c streams sm)))) = written (trace ag)"
proof (induction streams arbitrary: ag sm)
  case Nil
  show ?case by simp
next
  case (Cons p streams)
  obtain d s where p: "p = (d, s)" by (cases p)
  have step: "written (trace (state_of (subscribeToStream ag c d s))) = written (trace ag)"
    by (simp add: trace_after_install written_append split: option.splits)
  show ?case
  proof (cases "subscribeToStream ag c d s")
    case (Returns ag')
    with step Cons.IH [of ag'] show ?thesis by (simp add: p)
  next
    case (Throws ag')
    with step show ?thesis by (simp add: p)
  next
    case (RuntimeObject ag')
    with step show ?thesis by (simp add: p)
  qed
qed

lemma bulk_callback_after_final:
  assumes "bs_called (snd st)"
  shows "bs_called (snd (state_of (bulk_callback st req c res))) \<and>
         written (trace (fst (state_of (bulk_callback st req c res)))) = written (trace (fst st))"
proof (cases "truthy (fst res)")
  case True
  with assms show ?thesis
    by (simp add: bulk_callback_def bulk_report_def bulk_finish_def Let_def)
next
  case False
  note w = install_streams_written [of "fst st" c "for_in (fst (snd res))" "snd (snd res)"]
  show ?thesis
  proof (cases "install_streams (fst st) c (for_in (fst (snd res))) (snd (snd res))")
    case (Returns inst)
    with False assms w show ?thesis
      by (simp add: bulk_callback_def bulk_report_def bulk_finish_def Let_def)
  next
    case (Throws inst)
    with False assms w show ?thesis
      by (simp add: bulk_callback_def Let_def)
  next
    case (RuntimeObject inst)
    with False assms w show ?thesis
      by (simp add: bulk_callback_def Let_def)
  qed
qed

lemma bulk_run_after_final:
  "bs_called (snd st) \<Longrightarrow>
   written (trace (fst (state_of (bulk_run st req post)))) = written (trace (fst st))"
proof (induction post arbitrary: st)
  case Nil
  show ?case by simp
next
  case (Cons x post)
  obtain c res where x: "x = (c, res)" by (cases x)
  note step = bulk_callback_after_final [OF Cons.prems, of req c res]
  show ?case
  proof (cases "bulk_callback st req c res")
    case (Returns st')
    with step Cons.IH [of st'] show ?thesis by (simp add: x)
  next
    case (Throws st')
    with step show ?thesis by (simp add: x)
  next
    case (RuntimeObject st')
    with step show ?thesis by (simp add: x)
  qed
qed

text \<open>
  C3. The agent has the document \<open>x\<close> of the collection \<open>A\<close> subscribed, with the
  stream 1. The client sends the bulk subscribe \<^verbatim>\<open>{a:'bs', s:{A:{toString:null}}}\<close>,
  the agent calls \<^verbatim>\<open>backend.subscribeBulk\<close> for \<open>A\<close>, and the Backend answers with an
  error. In the sweep \<^verbatim>\<open>docs['toString']\<close> is the function every object inherits,
  \<^verbatim>\<open>stream.destroy()\<close> throws a TypeError, and the callback is never called: nothing
  is written, and the request gets no error reply.
\<close>

theorem bulk_subscribe_sweep_throws_on_inherited_name:
  "subscribeToStream (new_agent ''agent1'') ''A'' ''x'' 1 =
     Returns ((new_agent ''agent1'')\<lparr>subscribedDocs := [(''A'', [(''x'', 1)])]\<rparr>) \<and>
   handleMessage ((new_agent ''agent1'')\<lparr>subscribedDocs := [(''A'', [(''x'', 1)])]\<rparr>)
     (JObj [(''a'', JStr ''bs''), (''s'', JObj [(''A'', JObj [(''toString'', JNull)])])]) =
     Inr ((new_agent ''agent1'')\<lparr>subscribedDocs := [(''A'', [(''x'', 1)])],
            trace := [Backend (BSubscribeBulk (JStr ''A'') (JObj [(''toString'', JNull)]))]\<rparr>) \<and>
   bulk_callback
     (bulkSubscribe ((new_agent ''agent1'')\<lparr>subscribedDocs := [(''A'', [(''x'', 1)])]\<rparr>)
        (JObj [(''a'', JStr ''bs''), (''s'', JObj [(''A'', JObj [(''toString'', JNull)])])]))
     (JObj [(''a'', JStr ''bs''), (''s'', JObj [(''A'', JObj [(''toString'', JNull)])])])
     ''A'' (JObj [(''message'', JStr ''no such collection'')], [], []) =
     Throws ((new_agent ''agent1'')\<lparr>subscribedDocs := [(''A'', [(''x'', 1)])],
               trace := [Backend (BSubscribeBulk (JStr ''A'') (JObj [(''toString'', JNull)]))]\<rparr>,
             \<lparr>bs_response = [], bs_pending = 0, bs_called = False\<rparr>) \<and>
   written (trace (fst (state_of (bulk_callback
     (bulkSubscribe ((new_agent ''agent1'')\<lparr>subscribedDocs := [(''A'', [(''x'', 1)])]\<rparr>)
        (JObj [(''a'', JStr ''bs''), (''s'', JObj [(''A'', JObj [(''toString'', JNull)])])]))
     (JObj [(''a'', JStr ''bs''), (''s'', JObj [(''A'', JObj [(''toString'', JNull)])])])
     ''A'' (JObj [(''message'', JStr ''no such collection'')], [], []))))) = []"
  by (simp add: subscribeToStream_def install_def storeStream_def slot_def put_def inherited_def
      object_prototype_names_def handleMessage_def checkRequest_def strict_eq_def
      bulkSubscribe_def bulk_callback_def bulk_report_def bulk_finish_def bulk_final_def
      sweep_def for_in_def is_index_def new_agent_def emit_def Let_def)

end
